theory Spec2Isabelle
  imports Complex_Main
begin

section \<open>Responsive layout planner\<close>

text \<open>
  The page component lays a title and a description out as one rigid body per letter.
  Numbers of the source are JavaScript numbers; they are modelled as \<open>real\<close> (exact
  arithmetic, no rounding and no \<open>NaN\<close>), string lengths and indices as \<open>nat\<close>, and
  the value of \<open>Math.floor(...) - 2\<close> as \<open>int\<close>. The properties of the word wrap are
  proved for every integer bound, so they do not rest on how the bound is rounded. The
  texts of the source are ASCII, so a \<open>string\<close> has the length the source's \<open>.length\<close>
  reports.
\<close>

definition MOVEMENT_THRESHOLD :: real where
  "MOVEMENT_THRESHOLD = 5"

text \<open>The description text of the full-viewport page.\<close>

definition DESCRIPTION_TEXT :: string where
  "DESCRIPTION_TEXT = ''Hey! I'' @ [CHR 0x27] @ ''m a product engineer based in London, interested in agentic systems, design systems and bringing people joy through software. I studied comp sci @ UCL and work on everything front end @ codewords''"

text \<open>The description text of the variant whose canvas extends the hero container.\<close>

definition CANVAS_EXTENSION :: real where
  "CANVAS_EXTENSION = 200"

definition DESCRIPTION_TEXT_ext :: string where
  "DESCRIPTION_TEXT_ext = ''I'' @ [CHR 0x27] @ ''m a product & software engineer interested in agentic systems, design systems. I studied comp sci @ UCL and work on everything front end @ CodeWords''"

text \<open>
  \<open>String.prototype.split\<close> with a one-character separator: every occurrence of the
  separator ends a piece, so the empty string gives one empty piece and two adjacent
  separators give an empty piece between them.
\<close>

fun js_split :: "char \<Rightarrow> string \<Rightarrow> string list" where
  "js_split sep [] = [[]]"
| "js_split sep (c # cs) =
     (if c = sep then [] # js_split sep cs
      else (case js_split sep cs of
              [] \<Rightarrow> [[c]]
            | w # ws \<Rightarrow> (c # w) # ws))"

record config =
  titleFontSize :: real
  descFontSize :: real
  lineHeight :: real
  descLineHeight :: real
  descriptionLines :: "string list"

text \<open>
  The \<open>for (const word of words)\<close> loop of \<open>getResponsiveConfig\<close>, with its two mutable
  locals \<open>lines\<close> and \<open>currentLine\<close> passed along. An empty string is falsy.
\<close>

fun wrapLoop :: "int \<Rightarrow> string list \<Rightarrow> string list \<Rightarrow> string \<Rightarrow> string list \<times> string" where
  "wrapLoop maxCharsPerLine [] lines currentLine = (lines, currentLine)"
| "wrapLoop maxCharsPerLine (word # words) lines currentLine =
     (let testLine = (if currentLine \<noteq> [] then currentLine @ '' '' @ word else word) in
      if int (length testLine) \<le> maxCharsPerLine
      then wrapLoop maxCharsPerLine words lines testLine
      else wrapLoop maxCharsPerLine words
             (if currentLine \<noteq> [] then lines @ [currentLine] else lines) word)"

definition wrapWords :: "int \<Rightarrow> string list \<Rightarrow> string list" where
  "wrapWords maxCharsPerLine words =
     (case wrapLoop maxCharsPerLine words [] [] of
        (lines, currentLine) \<Rightarrow>
          if currentLine \<noteq> [] then lines @ [currentLine] else lines)"

definition isMobile :: "real \<Rightarrow> bool" where
  "isMobile containerWidth = (containerWidth < 500)"

definition isTablet :: "real \<Rightarrow> bool" where
  "isTablet containerWidth = (containerWidth < 768)"

definition descFontSizeOf :: "real \<Rightarrow> real" where
  "descFontSizeOf containerWidth =
     (if isMobile containerWidth then 16 else if isTablet containerWidth then 15 else 14)"

definition maxCharsPerLine :: "real \<Rightarrow> int" where
  "maxCharsPerLine containerWidth =
     (let charWidth = descFontSizeOf containerWidth * 0.62
      in \<lfloor>containerWidth / charWidth\<rfloor> - 2)"

text \<open>
  \<open>getResponsiveConfig\<close> is the same text in both variants of the page and reads the
  module constant \<open>DESCRIPTION_TEXT\<close>, which differs between them: the constant is the
  first argument here.
\<close>

definition getResponsiveConfigOf :: "string \<Rightarrow> real \<Rightarrow> config" where
  "getResponsiveConfigOf text containerWidth =
     \<lparr> titleFontSize =
         (if isMobile containerWidth then 20 else if isTablet containerWidth then 18 else 16),
       descFontSize = descFontSizeOf containerWidth,
       lineHeight =
         (if isMobile containerWidth then 28 else if isTablet containerWidth then 26 else 24),
       descLineHeight =
         (if isMobile containerWidth then 24 else if isTablet containerWidth then 23 else 22),
       descriptionLines = wrapWords (maxCharsPerLine containerWidth) (js_split CHR '' '' text) \<rparr>"

definition getResponsiveConfig :: "real \<Rightarrow> config" where
  "getResponsiveConfig = getResponsiveConfigOf DESCRIPTION_TEXT"

definition getResponsiveConfig_ext :: "real \<Rightarrow> config" where
  "getResponsiveConfig_ext = getResponsiveConfigOf DESCRIPTION_TEXT_ext"

text \<open>What \<open>if (currentLine) lines.push(currentLine)\<close> leaves in \<open>lines\<close>.\<close>

definition flush :: "string list \<Rightarrow> string \<Rightarrow> string list" where
  "flush lines currentLine = (if currentLine \<noteq> [] then lines @ [currentLine] else lines)"


section \<open>The physics scene\<close>

text \<open>
  Matter.js is a dependency of the page, not code of it. Its calls are modelled by what
  they do to the fields the page reads: a body has an identifier drawn from the library's
  global counter, a position, an angle, a linear and an angular velocity, a shape and the
  options it was created with; a world is the list of the bodies added to it, by
  identifier; \<open>World.add\<close> appends, \<open>World.remove\<close> takes the first occurrence out, and
  the four \<open>Body.set...\<close> calls write the field they name. A vector is a pair. The
  transparent render styles are left out.
\<close>

datatype shape = Rectangle real real | Circle real

record options =
  isStatic :: bool
  restitution :: "real option"
  friction :: "real option"
  frictionAir :: "real option"
  density :: "real option"

record body =
  bodyId :: nat
  position :: "real \<times> real"
  angle :: real
  velocity :: "real \<times> real"
  angularVelocity :: real
  shape :: shape
  options :: options

text \<open>The interface \<open>TextBody\<close> of the page.\<close>

record TextBody =
  body :: body
  char :: char
  fontSize :: real
  initialX :: real
  initialY :: real
  isTitle :: bool

text \<open>
  The refs and the state of the component \<open>Home\<close>: \<open>engineRef.current?.world\<close> (absent
  while there is no engine), the library's identifier counter, \<open>textBodiesRef\<close>,
  \<open>wallsRef\<close>, \<open>mouseBodyRef\<close>, \<open>hasBeenTouchedRef\<close> and the React state
  \<open>showResetButton\<close>. Each body is owned by exactly one of the three body refs, which
  holds its state; the world holds identifiers.
\<close>

record scene =
  engineWorld :: "nat list option"
  nextBodyId :: nat
  textBodies :: "TextBody list"
  walls :: "body list"
  mouseBody :: "body option"
  hasBeenTouched :: bool
  showResetButton :: bool

definition Bodies_rectangle :: "real \<Rightarrow> real \<Rightarrow> real \<Rightarrow> real \<Rightarrow> options \<Rightarrow> scene \<Rightarrow> body \<times> scene" where
  "Bodies_rectangle px py w h opts s =
     (\<lparr> bodyId = nextBodyId s, position = (px, py), angle = 0, velocity = (0, 0),
        angularVelocity = 0, shape = Rectangle w h, options = opts \<rparr>,
      s\<lparr>nextBodyId := Suc (nextBodyId s)\<rparr>)"

definition Bodies_circle :: "real \<Rightarrow> real \<Rightarrow> real \<Rightarrow> options \<Rightarrow> scene \<Rightarrow> body \<times> scene" where
  "Bodies_circle px py r opts s =
     (\<lparr> bodyId = nextBodyId s, position = (px, py), angle = 0, velocity = (0, 0),
        angularVelocity = 0, shape = Circle r, options = opts \<rparr>,
      s\<lparr>nextBodyId := Suc (nextBodyId s)\<rparr>)"

definition World_add :: "body \<Rightarrow> scene \<Rightarrow> scene" where
  "World_add b s = s\<lparr>engineWorld := map_option (\<lambda>world. world @ [bodyId b]) (engineWorld s)\<rparr>"

definition World_remove :: "body \<Rightarrow> scene \<Rightarrow> scene" where
  "World_remove b s = s\<lparr>engineWorld := map_option (remove1 (bodyId b)) (engineWorld s)\<rparr>"

definition Body_setPosition :: "body \<Rightarrow> real \<times> real \<Rightarrow> body" where
  "Body_setPosition b p = b\<lparr>position := p\<rparr>"

definition Body_setAngle :: "body \<Rightarrow> real \<Rightarrow> body" where
  "Body_setAngle b a = b\<lparr>angle := a\<rparr>"

definition Body_setVelocity :: "body \<Rightarrow> real \<times> real \<Rightarrow> body" where
  "Body_setVelocity b v = b\<lparr>velocity := v\<rparr>"

definition Body_setAngularVelocity :: "body \<Rightarrow> real \<Rightarrow> body" where
  "Body_setAngularVelocity b w = b\<lparr>angularVelocity := w\<rparr>"

subsection \<open>Glyph body factory\<close>

definition letterOptions :: options where
  "letterOptions = \<lparr> isStatic = False, restitution = Some 0.8, friction = Some 0.1,
     frictionAir = Some 0.03, density = Some 0.002 \<rparr>"

text \<open>
  The \<open>for (let i = 0; i < text.length; i++)\<close> loop, the same text in the title and the
  description branch of both variants but for \<open>isTitle\<close>: \<open>i\<close> is the index of the
  first character of the rest of the line. A space is skipped by \<open>continue\<close>, which
  still counts \<open>i\<close> up.
\<close>

fun letterLoop :: "real \<Rightarrow> real \<Rightarrow> real \<Rightarrow> bool \<Rightarrow> nat \<Rightarrow> string \<Rightarrow> scene \<Rightarrow> scene" where
  "letterLoop fontSz offsetX py title i [] s = s"
| "letterLoop fontSz offsetX py title i (c # cs) s =
     (if c = CHR '' '' then letterLoop fontSz offsetX py title (Suc i) cs s
      else
        (let charWidth = fontSz * 0.62;
             startX = offsetX + charWidth / 2;
             px = startX + real i * charWidth;
             bodyWidth = charWidth * 0.9;
             bodyHeight = fontSz * 1.1
         in case Bodies_rectangle px py bodyWidth bodyHeight letterOptions s of
              (b, s1) \<Rightarrow>
                (let s2 = World_add b s1;
                     s3 = s2\<lparr>textBodies := textBodies s2 @
                            [\<lparr> body = b, char = c, fontSize = fontSz, initialX = px,
                               initialY = py, isTitle = title \<rparr>]\<rparr>
                 in letterLoop fontSz offsetX py title (Suc i) cs s3)))"

text \<open>\<open>titleLines.forEach(({ text, fontSize, y }) => ...)\<close>\<close>

fun titleLinesLoop :: "real \<Rightarrow> (string \<times> real \<times> real) list \<Rightarrow> scene \<Rightarrow> scene" where
  "titleLinesLoop offsetX [] s = s"
| "titleLinesLoop offsetX ((text, fontSz, py) # rest) s =
     titleLinesLoop offsetX rest (letterLoop fontSz offsetX py True 0 text s)"

text \<open>\<open>descriptionLines.forEach((text, lineIndex) => ...)\<close>\<close>

fun descriptionLinesLoop :: "real \<Rightarrow> real \<Rightarrow> real \<Rightarrow> real \<Rightarrow> nat \<Rightarrow> string list \<Rightarrow> scene \<Rightarrow> scene" where
  "descriptionLinesLoop offsetX descFontSz descStartY descLineHt lineIndex [] s = s"
| "descriptionLinesLoop offsetX descFontSz descStartY descLineHt lineIndex (text # rest) s =
     descriptionLinesLoop offsetX descFontSz descStartY descLineHt (Suc lineIndex) rest
       (letterLoop descFontSz offsetX (descStartY + real lineIndex * descLineHt) False 0 text s)"

text \<open>\<open>textBodiesRef.current.forEach(({ body }) => World.remove(world, body))\<close>\<close>

definition clearTextBodies :: "scene \<Rightarrow> scene" where
  "clearTextBodies s =
     (foldl (\<lambda>s1 tb. World_remove (body tb) s1) s (textBodies s))\<lparr>textBodies := []\<rparr>"

text \<open>\<open>createLetterBodies\<close> of the full-viewport page.\<close>

definition createLetterBodies :: "real \<Rightarrow> real \<Rightarrow> real \<Rightarrow> scene \<Rightarrow> scene" where
  "createLetterBodies containerWidth offsetX offsetY s =
     (case engineWorld s of
        None \<Rightarrow> s
      | Some world \<Rightarrow>
          (let s1 = clearTextBodies s;
               cfg = getResponsiveConfig containerWidth;
               titleLines =
                 [(''AMMAN VEDI'', titleFontSize cfg, offsetY + 50),
                  (''PRODUCT ENGINEER'', titleFontSize cfg, offsetY + 50 + lineHeight cfg)];
               descStartY = offsetY + 50 + lineHeight cfg * 2 + 40;
               s2 = titleLinesLoop offsetX titleLines s1
           in descriptionLinesLoop offsetX (descFontSize cfg) descStartY (descLineHeight cfg) 0
                (descriptionLines cfg) s2))"

text \<open>\<open>createLetterBodies\<close> of the variant with the extended canvas.\<close>

definition createLetterBodies_ext :: "real \<Rightarrow> scene \<Rightarrow> scene" where
  "createLetterBodies_ext containerWidth s =
     (case engineWorld s of
        None \<Rightarrow> s
      | Some world \<Rightarrow>
          (let s1 = clearTextBodies s;
               cfg = getResponsiveConfig_ext containerWidth;
               paddingOffset = CANVAS_EXTENSION;
               titleLines =
                 [(''AMMAN VEDI'', titleFontSize cfg, 50),
                  (''SOFTWARE ENGINEER'', titleFontSize cfg, 50 + lineHeight cfg)];
               descStartY = 50 + lineHeight cfg * 2 + 40;
               s2 = titleLinesLoop paddingOffset titleLines s1
           in descriptionLinesLoop paddingOffset (descFontSize cfg) descStartY
                (descLineHeight cfg) 0 (descriptionLines cfg) s2))"

subsection \<open>Boundary manager\<close>

definition wallOptions :: options where
  "wallOptions = \<lparr> isStatic = True, restitution = None, friction = None,
     frictionAir = None, density = None \<rparr>"

text \<open>\<open>wallsRef.current.forEach((wall) => World.remove(world, wall))\<close>\<close>

definition removeOldWalls :: "scene \<Rightarrow> scene" where
  "removeOldWalls s = foldl (\<lambda>s1 wall. World_remove wall s1) s (walls s)"

text \<open>
  \<open>createWalls\<close> of the full-viewport page. It returns the new walls as well; no caller
  uses the value, which is \<open>wallsRef\<close> of the result.
\<close>

definition createWalls :: "real \<Rightarrow> scene \<Rightarrow> scene" where
  "createWalls width s =
     (case engineWorld s of
        None \<Rightarrow> s
      | Some world \<Rightarrow>
          (let s0 = removeOldWalls s;
               wallThickness = 100;
               extendedHeight = 2000
           in case Bodies_rectangle (width / 2) (extendedHeight + wallThickness / 2)
                     (width * 2) wallThickness wallOptions s0 of
              (floor_wall, s1) \<Rightarrow>
            case Bodies_rectangle (width / 2) (- wallThickness / 2)
                     (width * 2) wallThickness wallOptions s1 of
              (ceiling_wall, s2) \<Rightarrow>
            case Bodies_rectangle (- wallThickness / 2) (extendedHeight / 2)
                     wallThickness (extendedHeight * 2) wallOptions s2 of
              (left_wall, s3) \<Rightarrow>
            case Bodies_rectangle (width + wallThickness / 2) (extendedHeight / 2)
                     wallThickness (extendedHeight * 2) wallOptions s3 of
              (right_wall, s4) \<Rightarrow>
                (let ws = [floor_wall, ceiling_wall, left_wall, right_wall];
                     s5 = foldl (\<lambda>s1 wall. World_add wall s1) s4 ws
                 in s5\<lparr>walls := ws\<rparr>)))"

text \<open>\<open>createWalls\<close> of the variant with the extended canvas, which takes the height.\<close>

definition createWalls_ext :: "real \<Rightarrow> real \<Rightarrow> scene \<Rightarrow> scene" where
  "createWalls_ext width height s =
     (case engineWorld s of
        None \<Rightarrow> s
      | Some world \<Rightarrow>
          (let s0 = removeOldWalls s;
               wallThickness = 100
           in case Bodies_rectangle (width / 2) (height + wallThickness / 2)
                     (width * 2) wallThickness wallOptions s0 of
              (floor_wall, s1) \<Rightarrow>
            case Bodies_rectangle (width / 2) (- wallThickness / 2)
                     (width * 2) wallThickness wallOptions s1 of
              (ceiling_wall, s2) \<Rightarrow>
            case Bodies_rectangle (- wallThickness / 2) (height / 2)
                     wallThickness (height * 2) wallOptions s2 of
              (left_wall, s3) \<Rightarrow>
            case Bodies_rectangle (width + wallThickness / 2) (height / 2)
                     wallThickness (height * 2) wallOptions s3 of
              (right_wall, s4) \<Rightarrow>
                (let ws = [floor_wall, ceiling_wall, left_wall, right_wall];
                     s5 = foldl (\<lambda>s1 wall. World_add wall s1) s4 ws
                 in s5\<lparr>walls := ws\<rparr>)))"

subsection \<open>Disturbance tracker and reset\<close>

text \<open>\<open>resetText\<close>, the same text in both variants.\<close>

definition resetBody :: "TextBody \<Rightarrow> TextBody" where
  "resetBody tb =
     tb\<lparr>body :=
          Body_setAngularVelocity
            (Body_setVelocity
               (Body_setAngle
                  (Body_setPosition (body tb) (initialX tb, initialY tb))
                  0)
               (0, 0))
            0\<rparr>"

definition resetText :: "scene \<Rightarrow> scene" where
  "resetText s =
     s\<lparr>textBodies := map resetBody (textBodies s),
       hasBeenTouched := False,
       showResetButton := False\<rparr>"

text \<open>
  The \<open>for ... of\<close> loop of \<open>checkForMovement\<close> with its \<open>break\<close>: the value of
  \<open>hasMoved\<close> after the loop.
\<close>

fun hasMovedLoop :: "TextBody list \<Rightarrow> bool" where
  "hasMovedLoop [] = False"
| "hasMovedLoop (tb # rest) =
     (let dx = \<bar>fst (position (body tb)) - initialX tb\<bar>;
          dy = \<bar>snd (position (body tb)) - initialY tb\<bar>;
          a = \<bar>angle (body tb)\<bar>
      in if dx > MOVEMENT_THRESHOLD \<or> dy > MOVEMENT_THRESHOLD \<or> a > 0.1 then True
         else hasMovedLoop rest)"

definition checkForMovement :: "scene \<Rightarrow> scene" where
  "checkForMovement s =
     (if hasMovedLoop (textBodies s)
      then (let s1 = s\<lparr>hasBeenTouched := True\<rparr>
            in if \<not> showResetButton s1 then s1\<lparr>showResetButton := True\<rparr> else s1)
      else s)"

subsection \<open>Simulation loop: mounting, pointer, resize\<close>

text \<open>
  What the handlers read from the page: \<open>window.innerWidth\<close>, \<open>window.innerHeight\<close>
  and, when \<open>heroRef.current\<close> is there, the hero rectangle as (width, height, left,
  top). The sizes written to the render surface are left out: nothing read here
  depends on them.
\<close>

record dom =
  innerWidth :: real
  innerHeight :: real
  heroRect :: "(real \<times> real \<times> real \<times> real) option"

text \<open>\<open>handleResize\<close> of the full-viewport page.\<close>

definition handleResize :: "dom \<Rightarrow> scene \<Rightarrow> scene" where
  "handleResize d s =
     (case heroRect d of
        None \<Rightarrow> s
      | Some (heroWidth, heroHeight, heroLeft, heroTop) \<Rightarrow>
          (let newCanvasWidth = innerWidth d;
               s1 = createWalls newCanvasWidth s
           in if \<not> hasBeenTouched s1
              then createLetterBodies heroWidth heroLeft heroTop s1
              else s1))"

text \<open>\<open>handleResize\<close> of the variant with the extended canvas.\<close>

definition handleResize_ext :: "dom \<Rightarrow> scene \<Rightarrow> scene" where
  "handleResize_ext d s =
     (case heroRect d of
        None \<Rightarrow> s
      | Some (heroWidth, heroHeight, heroLeft, heroTop) \<Rightarrow>
          (let newContainerWidth = heroWidth;
               newHeight = heroHeight;
               newCanvasWidth = newContainerWidth + CANVAS_EXTENSION * 2;
               s1 = createWalls_ext newCanvasWidth newHeight s
           in if \<not> hasBeenTouched s1
              then createLetterBodies_ext newContainerWidth s1
              else s1))"

definition mouseOptions :: options where
  "mouseOptions = \<lparr> isStatic = True, restitution = None, friction = None,
     frictionAir = None, density = None \<rparr>"

text \<open>The values the refs and the state are created with.\<close>

definition initialRefs :: "nat \<Rightarrow> scene" where
  "initialRefs firstId =
     \<lparr> engineWorld = None, nextBodyId = firstId, textBodies = [], walls = [],
       mouseBody = None, hasBeenTouched = False, showResetButton = False \<rparr>"

text \<open>
  The body of the effect of the full-viewport page up to the pointer proxy; the effect
  returns at once when the scene or the hero element is not there (here: no hero
  rectangle). It runs when the component mounts and again whenever \<open>checkForMovement\<close>
  is a new callback, that is when \<open>showResetButton\<close> has changed.
\<close>

definition mountScene :: "dom \<Rightarrow> scene \<Rightarrow> scene" where
  "mountScene d s =
     (case heroRect d of
        None \<Rightarrow> s
      | Some (heroWidth, heroHeight, heroLeft, heroTop) \<Rightarrow>
          (let s0 = s\<lparr>engineWorld := Some []\<rparr>;
               canvasWidth = innerWidth d;
               s1 = createWalls canvasWidth s0;
               s2 = createLetterBodies heroWidth heroLeft heroTop s1
           in case Bodies_circle 0 0 15 mouseOptions s2 of
                (mouse, s3) \<Rightarrow> World_add mouse (s3\<lparr>mouseBody := Some mouse\<rparr>)))"

text \<open>The same part of the effect of the variant with the extended canvas.\<close>

definition mountScene_ext :: "dom \<Rightarrow> scene \<Rightarrow> scene" where
  "mountScene_ext d s =
     (case heroRect d of
        None \<Rightarrow> s
      | Some (heroWidth, heroHeight, heroLeft, heroTop) \<Rightarrow>
          (let s0 = s\<lparr>engineWorld := Some []\<rparr>;
               containerWidth = heroWidth;
               height = heroHeight;
               canvasWidth = containerWidth + CANVAS_EXTENSION * 2;
               s1 = createWalls_ext canvasWidth height s0;
               s2 = createLetterBodies_ext containerWidth s1
           in case Bodies_circle 0 0 15 mouseOptions s2 of
                (mouse, s3) \<Rightarrow> World_add mouse (s3\<lparr>mouseBody := Some mouse\<rparr>)))"

text \<open>\<open>handleMouseMove\<close> and \<open>handleTouchMove\<close>, given the point relative to the canvas.\<close>

definition handlePointer :: "real \<times> real \<Rightarrow> scene \<Rightarrow> scene" where
  "handlePointer p s =
     (case mouseBody s of
        None \<Rightarrow> s
      | Some mouse \<Rightarrow> s\<lparr>mouseBody := Some (Body_setPosition mouse p)\<rparr>)"

text \<open>
  One update of the engine: the integrator of the library gives every glyph body a new
  position, angle and velocities, which the model takes as the function \<open>f\<close>; the static
  bodies stay.
\<close>

definition engineUpdate :: "(TextBody \<Rightarrow> (real \<times> real) \<times> real \<times> (real \<times> real) \<times> real) \<Rightarrow> scene \<Rightarrow> scene" where
  "engineUpdate f s =
     s\<lparr>textBodies :=
         map (\<lambda>tb. case f tb of
                (p, a, v, w) \<Rightarrow>
                  tb\<lparr>body := (body tb)\<lparr>position := p, angle := a, velocity := v,
                                         angularVelocity := w\<rparr>\<rparr>)
           (textBodies s)\<rparr>"

text \<open>
  The events of a page view. \<open>AfterRender\<close> is the handler of the render's
  \<open>afterRender\<close> event: it draws, which only reads, and calls \<open>checkForMovement\<close>.
\<close>

datatype event =
    Mount dom
  | EngineUpdate "TextBody \<Rightarrow> (real \<times> real) \<times> real \<times> (real \<times> real) \<times> real"
  | AfterRender
  | PointerMove "real \<times> real"
  | Resize dom
  | ResetClick

datatype variant = FullViewport | ExtendedCanvas

fun step :: "variant \<Rightarrow> event \<Rightarrow> scene \<Rightarrow> scene" where
  "step FullViewport (Mount d) s = mountScene d s"
| "step ExtendedCanvas (Mount d) s = mountScene_ext d s"
| "step v (EngineUpdate f) s = engineUpdate f s"
| "step v AfterRender s = checkForMovement s"
| "step v (PointerMove p) s = handlePointer p s"
| "step FullViewport (Resize d) s = handleResize d s"
| "step ExtendedCanvas (Resize d) s = handleResize_ext d s"
| "step v ResetClick s = resetText s"

definition run :: "variant \<Rightarrow> event list \<Rightarrow> scene \<Rightarrow> scene" where
  "run v es s = foldl (\<lambda>s1 e. step v e s1) s es"

text \<open>A glyph body with a pose of one's choice, for trying the operations on.\<close>

definition exampleGlyph :: "real \<times> real \<Rightarrow> real \<Rightarrow> TextBody" where
  "exampleGlyph p a =
     \<lparr> body = \<lparr> bodyId = 0, position = p, angle = a, velocity = (1, 0),
         angularVelocity = 0, shape = Rectangle 10 20, options = letterOptions \<rparr>,
       char = CHR ''A'', fontSize = 20, initialX = 100, initialY = 50, isTitle = True \<rparr>"

subsection \<open>Notions for stating the properties\<close>

text \<open>The number of characters of a line that are not a space.\<close>

definition nonSpace :: "string \<Rightarrow> nat" where
  "nonSpace text = length (filter (\<lambda>c. c \<noteq> CHR '' '') text)"

text \<open>What a glyph body records: character, initial position, font size and role.\<close>

definition glyphOf :: "TextBody \<Rightarrow> char \<times> real \<times> real \<times> real \<times> bool" where
  "glyphOf tb = (char tb, initialX tb, initialY tb, fontSize tb, isTitle tb)"

text \<open>
  The glyphs a line asks for, given the line's origin: one for each character that is
  not a space, the character at index \<open>i\<close> at \<open>startX + i * charWidth\<close>, where
  \<open>charWidth = fontSize * 0.62\<close> and \<open>startX = offsetX + charWidth / 2\<close>. \<open>glyphsFrom\<close>
  numbers the characters from \<open>i0\<close>.
\<close>

definition glyphsFrom :: "nat \<Rightarrow> real \<Rightarrow> string \<times> real \<times> real \<times> bool \<Rightarrow> (char \<times> real \<times> real \<times> real \<times> bool) list" where
  "glyphsFrom i0 offsetX textLine =
     (case textLine of (text, fontSz, py, title) \<Rightarrow>
        map (\<lambda>(i, c). (c, (offsetX + fontSz * 0.62 / 2) + real i * (fontSz * 0.62), py, fontSz, title))
          (filter (\<lambda>(i, c). c \<noteq> CHR '' '') (enumerate i0 text)))"

definition lineGlyphs :: "real \<Rightarrow> string \<times> real \<times> real \<times> bool \<Rightarrow> (char \<times> real \<times> real \<times> real \<times> bool) list" where
  "lineGlyphs = glyphsFrom 0"

text \<open>
  The lines of a layout with font size, vertical position and role: the two title lines
  from 50 below the origin, a line height apart, and the description lines from 40 below
  the second line height, a description line height apart.
\<close>

definition layoutLines :: "string \<Rightarrow> config \<Rightarrow> real \<Rightarrow> (string \<times> real \<times> real \<times> bool) list" where
  "layoutLines title2 cfg offsetY =
     [(''AMMAN VEDI'', titleFontSize cfg, offsetY + 50, True),
      (title2, titleFontSize cfg, offsetY + 50 + lineHeight cfg, True)] @
     map (\<lambda>(k, text). (text, descFontSize cfg,
                        offsetY + 50 + lineHeight cfg * 2 + 40 + real k * descLineHeight cfg, False))
       (enumerate 0 (descriptionLines cfg))"

text \<open>A glyph body as the factory leaves it: at rest at its initial position.\<close>

definition atInitialPose :: "TextBody \<Rightarrow> bool" where
  "atInitialPose tb \<longleftrightarrow>
     position (body tb) = (initialX tb, initialY tb) \<and> angle (body tb) = 0 \<and>
     velocity (body tb) = (0, 0) \<and> angularVelocity (body tb) = 0 \<and>
     shape (body tb) = Rectangle (fontSize tb * 0.62 * 0.9) (fontSize tb * 1.1) \<and>
     options (body tb) = letterOptions"

text \<open>
  The scene \<open>s'\<close> is \<open>s\<close> with the glyph bodies \<open>new\<close> created, added to the world and
  recorded, and nothing else changed.
\<close>

definition grown :: "scene \<Rightarrow> TextBody list \<Rightarrow> scene \<Rightarrow> bool" where
  "grown s new s' \<longleftrightarrow>
     textBodies s' = textBodies s @ new \<and>
     map (\<lambda>tb. bodyId (body tb)) new = [nextBodyId s ..< nextBodyId s + length new] \<and>
     nextBodyId s' = nextBodyId s + length new \<and>
     engineWorld s' = map_option (\<lambda>world. world @ map (\<lambda>tb. bodyId (body tb)) new) (engineWorld s) \<and>
     walls s' = walls s \<and> mouseBody s' = mouseBody s \<and>
     hasBeenTouched s' = hasBeenTouched s \<and> showResetButton s' = showResetButton s"

text \<open>
  The glyph bodies of \<open>s'\<close> are those of the lines \<open>ls\<close> laid out from \<open>offsetX\<close>: their
  records are the glyphs of the lines in order, each body is at rest at its initial
  position, they are new bodies (identifiers drawn from the counter of \<open>s\<close>), and the
  world of \<open>s'\<close> is the world of \<open>s\<close> without the glyph bodies of \<open>s\<close>, followed by them.
\<close>

definition glyphsRebuilt :: "real \<Rightarrow> (string \<times> real \<times> real \<times> bool) list \<Rightarrow> scene \<Rightarrow> scene \<Rightarrow> bool" where
  "glyphsRebuilt offsetX ls s s' \<longleftrightarrow>
     map glyphOf (textBodies s') = concat (map (lineGlyphs offsetX) ls) \<and>
     list_all atInitialPose (textBodies s') \<and>
     map (\<lambda>tb. bodyId (body tb)) (textBodies s')
       = [nextBodyId s ..< nextBodyId s + length (textBodies s')] \<and>
     engineWorld s'
       = map_option
           (\<lambda>world. foldl (\<lambda>w tb. remove1 (bodyId (body tb)) w) world (textBodies s)
                      @ map (\<lambda>tb. bodyId (body tb)) (textBodies s'))
           (engineWorld s)"

text \<open>
  The bodies with the identifiers \<open>old\<close> are out of the world of \<open>s'\<close> and those with
  the identifiers \<open>new\<close> are in it.
\<close>

definition bodiesReplaced :: "nat list \<Rightarrow> nat list \<Rightarrow> scene \<Rightarrow> bool" where
  "bodiesReplaced old new s' \<longleftrightarrow>
     (case engineWorld s' of
        None \<Rightarrow> False
      | Some world' \<Rightarrow> (\<forall>i \<in> set old. i \<notin> set world') \<and> (\<forall>i \<in> set new. i \<in> set world'))"

text \<open>
  The boundary bodies of \<open>s'\<close> are four static rectangles around a region of the given
  width and height, 100 thick (floor, ceiling, left wall, right wall), and they have
  replaced those of \<open>s\<close> in the world.
\<close>

definition wallsRebuilt :: "real \<Rightarrow> real \<Rightarrow> scene \<Rightarrow> scene \<Rightarrow> bool" where
  "wallsRebuilt width height s s' \<longleftrightarrow>
     map (\<lambda>b. (position b, shape b, isStatic (options b))) (walls s')
       = [((width / 2, height + 50), Rectangle (width * 2) 100, True),
          ((width / 2, - 50), Rectangle (width * 2) 100, True),
          ((- 50, height / 2), Rectangle 100 (height * 2), True),
          ((width + 50, height / 2), Rectangle 100 (height * 2), True)] \<and>
     bodiesReplaced (map bodyId (walls s)) (map bodyId (walls s')) s'"

text \<open>
  What holds of every scene a page view reaches: the world lists no body twice, and every
  identifier in use was drawn from the counter.
\<close>

definition sceneOk :: "scene \<Rightarrow> bool" where
  "sceneOk s \<longleftrightarrow>
     (case engineWorld s of
        None \<Rightarrow> True
      | Some world \<Rightarrow> distinct world \<and> list_all (\<lambda>i. i < nextBodyId s) world) \<and>
     list_all (\<lambda>b. bodyId b < nextBodyId s) (walls s) \<and>
     list_all (\<lambda>tb. bodyId (body tb) < nextBodyId s) (textBodies s)"

text \<open>
  The glyph bodies of \<open>s'\<close> have replaced those of \<open>s\<close>: they are the glyphs of the
  lines \<open>ls\<close> laid out from \<open>offsetX\<close>, each at rest at its initial position, they are in
  the world, and the glyph bodies of \<open>s\<close> are out of it.
\<close>

definition glyphsReplaced :: "real \<Rightarrow> (string \<times> real \<times> real \<times> bool) list \<Rightarrow> scene \<Rightarrow> scene \<Rightarrow> bool" where
  "glyphsReplaced offsetX ls s s' \<longleftrightarrow>
     map glyphOf (textBodies s') = concat (map (lineGlyphs offsetX) ls) \<and>
     list_all atInitialPose (textBodies s') \<and>
     bodiesReplaced (map (\<lambda>tb. bodyId (body tb)) (textBodies s))
       (map (\<lambda>tb. bodyId (body tb)) (textBodies s')) s'"

text \<open>
  What a resize does: the boundary bodies are rebuilt for the new width and height in any
  case; the glyph bodies are replaced by the layout \<open>ls\<close> when the scene was not touched,
  and are what they were when it was. The touched flag stays.
\<close>

definition resized :: "real \<Rightarrow> real \<Rightarrow> real \<Rightarrow> (string \<times> real \<times> real \<times> bool) list \<Rightarrow> scene \<Rightarrow> scene \<Rightarrow> bool" where
  "resized width height offsetX ls s s' \<longleftrightarrow>
     wallsRebuilt width height s s' \<and>
     (if hasBeenTouched s then textBodies s' = textBodies s
      else glyphsReplaced offsetX ls s s') \<and>
     hasBeenTouched s' = hasBeenTouched s"

text \<open>
  A small scene to try the handlers on: an engine whose world holds one glyph body, away
  from its initial position, and one boundary body.
\<close>

definition exampleWall :: body where
  "exampleWall = \<lparr> bodyId = 3, position = (0, 0), angle = 0, velocity = (0, 0),
     angularVelocity = 0, shape = Rectangle 100 100, options = wallOptions \<rparr>"

definition exampleScene :: "bool \<Rightarrow> scene" where
  "exampleScene touched =
     \<lparr> engineWorld = Some [0, 3], nextBodyId = 5, textBodies = [exampleGlyph (300, 7) 2],
       walls = [exampleWall], mouseBody = None, hasBeenTouched = touched,
       showResetButton = touched \<rparr>"

definition exampleDom :: dom where
  "exampleDom = \<lparr> innerWidth = 1000, innerHeight = 800, heroRect = Some (100, 320, 10, 20) \<rparr>"

section \<open>The subscription handler\<close>

text \<open>
  A JavaScript string is a list of UTF-16 code units. A value is what \<open>JSON.parse\<close>
  can give, or \<open>undefined\<close>, which reading a property that is not there gives.
\<close>

type_synonym jsString = "nat list"

definition ascii :: "string \<Rightarrow> jsString" where
  "ascii cs = map of_char cs"

datatype jsValue =
    JSUndefined
  | JSNull
  | JSBool bool
  | JSNumber real
  | JSString jsString
  | JSArray "jsValue list"
  | JSObject "(jsString \<times> jsValue) list"

datatype jsError = TypeError | SyntaxError

text \<open>
  \<open>const { email } = value\<close>: destructuring \<open>null\<close> throws a TypeError; an object gives
  its property \<open>email\<close> (of a key given twice in the JSON text, the last value) or
  \<open>undefined\<close>; a number, a boolean, a string and an array have no such property.
\<close>

fun destructureEmail :: "jsValue \<Rightarrow> jsError + jsValue" where
  "destructureEmail JSNull = Inl TypeError"
| "destructureEmail JSUndefined = Inl TypeError"
| "destructureEmail (JSObject kvs) =
     Inr (case map_of (rev kvs) (ascii ''email'') of None \<Rightarrow> JSUndefined | Some v \<Rightarrow> v)"
| "destructureEmail v = Inr JSUndefined"

text \<open>\<open>!v\<close> is true of \<open>undefined\<close>, \<open>null\<close>, \<open>false\<close>, zero and the empty string.\<close>

fun truthy :: "jsValue \<Rightarrow> bool" where
  "truthy JSUndefined = False"
| "truthy JSNull = False"
| "truthy (JSBool b) = b"
| "truthy (JSNumber r) = (r \<noteq> 0)"
| "truthy (JSString s) = (s \<noteq> [])"
| "truthy (JSArray vs) = True"
| "truthy (JSObject kvs) = True"

fun typeofString :: "jsValue \<Rightarrow> bool" where
  "typeofString (JSString s) = True"
| "typeofString v = False"

text \<open>
  The code units that \<open>\s\<close> matches: tab, line feed, vertical tab, form feed, carriage
  return, space, no-break space, the Unicode space separators, line and paragraph
  separator, and the byte order mark.
\<close>

definition isWhiteSpace :: "nat \<Rightarrow> bool" where
  "isWhiteSpace c \<longleftrightarrow>
     c \<in> {9, 10, 11, 12, 13, 32, 160, 0x1680, 0x2028, 0x2029, 0x202F, 0x205F, 0x3000, 0xFEFF}
     \<or> (0x2000 \<le> c \<and> c \<le> 0x200A)"

text \<open>The class \<open>[^\s@]\<close>.\<close>

definition notSpaceAt :: "nat \<Rightarrow> bool" where
  "notSpaceAt c \<longleftrightarrow> \<not> isWhiteSpace c \<and> c \<noteq> 0x40"

text \<open>
  Regular expressions of the shape used: a sequence of items, each one code unit or one
  or more code units of a class. \<open>rxTest\<close> is \<open>test\<close> of such an expression between
  \<open>^\<close> and \<open>$\<close>: the whole string has to match, with any choice of where a repetition
  ends.
\<close>

datatype rxItem = Lit nat | Plus "nat \<Rightarrow> bool"

fun rxTest :: "rxItem list \<Rightarrow> jsString \<Rightarrow> bool" where
  "rxTest [] s = (s = [])"
| "rxTest (Lit c # r) [] = False"
| "rxTest (Lit c # r) (x # xs) = (x = c \<and> rxTest r xs)"
| "rxTest (Plus p # r) [] = False"
| "rxTest (Plus p # r) (x # xs) = (p x \<and> (rxTest (Plus p # r) xs \<or> rxTest r xs))"

text \<open>\<open>/^[^\s@]+@[^\s@]+\.[^\s@]+$/\<close>\<close>

definition emailRegex :: "rxItem list" where
  "emailRegex = [Plus notSpaceAt, Lit 0x40, Plus notSpaceAt, Lit 0x2E, Plus notSpaceAt]"

text \<open>
  The request as the handler sees it: what \<open>await request.json()\<close> gives, nothing when it
  rejects because the body is not JSON. The contact store is not code of the page: what
  \<open>resend.contacts.create\<close> does with an address is a parameter, either a rejection or
  a result with \<open>data?.id\<close> and whether \<open>error\<close> is set.
\<close>

record request =
  request_json :: "jsValue option"

datatype createResult = Rejected | Resolved "jsString option" bool

datatype responseBody = ErrorBody string | SuccessBody "jsString option"

record response =
  status :: nat
  responseBody :: responseBody

text \<open>
  \<open>POST\<close>: the response, and the addresses \<open>resend.contacts.create\<close> was called with,
  in order. Whatever is thrown inside \<open>try\<close> ends in the \<open>catch\<close>. The regular
  expression is tested on a value that the check before it has found to be a string; the
  last case of the model, for any other value, is never taken.
\<close>

definition somethingWentWrong :: response where
  "somethingWentWrong = \<lparr> status = 500, responseBody = ErrorBody ''Something went wrong'' \<rparr>"

definition POST :: "(jsString \<Rightarrow> createResult) \<Rightarrow> request \<Rightarrow> response \<times> jsString list" where
  "POST contactsCreate req =
     (case request_json req of
        None \<Rightarrow> (somethingWentWrong, [])
      | Some parsed \<Rightarrow>
          (case destructureEmail parsed of
             Inl err \<Rightarrow> (somethingWentWrong, [])
           | Inr email \<Rightarrow>
               if \<not> truthy email \<or> \<not> typeofString email
               then (\<lparr> status = 400, responseBody = ErrorBody ''Email is required'' \<rparr>, [])
               else
                 (case email of
                    JSString address \<Rightarrow>
                      if \<not> rxTest emailRegex address
                      then (\<lparr> status = 400, responseBody = ErrorBody ''Invalid email format'' \<rparr>, [])
                      else
                        (case contactsCreate address of
                           Rejected \<Rightarrow> (somethingWentWrong, [address])
                         | Resolved dataId errorSet \<Rightarrow>
                             if errorSet
                             then (\<lparr> status = 500, responseBody = ErrorBody ''Failed to subscribe'' \<rparr>,
                                   [address])
                             else (\<lparr> status = 200, responseBody = SuccessBody dataId \<rparr>, [address]))
                  | _ \<Rightarrow> (somethingWentWrong, []))))"

text \<open>
  The email a request carries: the property \<open>email\<close> of its
  JSON object, none when the body is not JSON, is no object or has no such property.
\<close>

definition requestEmail :: "request \<Rightarrow> jsValue option" where
  "requestEmail req =
     (case request_json req of
        Some (JSObject kvs) \<Rightarrow> map_of (rev kvs) (ascii ''email'')
      | _ \<Rightarrow> None)"

text \<open>
  One or more characters that are neither white space nor \<open>@\<close>, then \<open>@\<close>, then such
  characters, then a dot, then such characters.
\<close>

definition emailPattern :: "jsString \<Rightarrow> bool" where
  "emailPattern e \<longleftrightarrow>
     (\<exists>l u v. e = l @ [0x40] @ u @ [0x2E] @ v \<and> l \<noteq> [] \<and> u \<noteq> [] \<and> v \<noteq> [] \<and>
        list_all notSpaceAt l \<and> list_all notSpaceAt u \<and> list_all notSpaceAt v)"

definition validEmail :: "jsValue option \<Rightarrow> bool" where
  "validEmail e \<longleftrightarrow> (case e of Some (JSString address) \<Rightarrow> emailPattern address | _ \<Rightarrow> False)"

text \<open>A contact store that accepts every address, and requests to try the handler on.\<close>

definition acceptAll :: "jsString \<Rightarrow> createResult" where
  "acceptAll address = Resolved (Some (ascii ''id-1'')) False"

definition noJsonRequest :: request where
  "noJsonRequest = \<lparr> request_json = None \<rparr>"

definition emailRequest :: "string \<Rightarrow> request" where
  "emailRequest address =
     \<lparr> request_json = Some (JSObject [(ascii ''email'', JSString (ascii address))]) \<rparr>"

section \<open>Properties of the layout planner\<close>

lemma js_split_not_Nil: "js_split sep s \<noteq> []"
  by (induction s) (auto split: list.splits)

lemma js_split_append: "js_split sep (a @ sep # b) = js_split sep a @ js_split sep b"
  by (induction a) (auto split: list.splits simp: js_split_not_Nil)

lemma js_split_no_sep: "sep \<notin> set w \<Longrightarrow> js_split sep w = [w]"
  by (induction w) auto

lemma js_split_pieces: "w \<in> set (js_split sep s) \<Longrightarrow> sep \<notin> set w"
proof (induction s arbitrary: w)
  case Nil
  then show ?case by simp
next
  case (Cons c cs)
  then show ?case
    by (cases "js_split sep cs") (auto simp: js_split_not_Nil split: if_splits)
qed

lemma wrapLoop_words:
  assumes "\<forall>w \<in> set ws. w \<noteq> [] \<and> CHR '' '' \<notin> set w"
    and "wrapLoop m ws lines cur = (ls, c)"
  shows "concat (map (js_split CHR '' '') (flush ls c)) =
         concat (map (js_split CHR '' '') (flush lines cur)) @ ws"
  using assms
proof (induction ws arbitrary: lines cur)
  case Nil
  then show ?case by simp
next
  case (Cons word ws)
  have w: "word \<noteq> []" "js_split CHR '' '' word = [word]"
    using Cons.prems(1) by (simp_all add: js_split_no_sep)
  have rest: "\<forall>w \<in> set ws. w \<noteq> [] \<and> CHR '' '' \<notin> set w"
    using Cons.prems(1) by simp
  let ?t = "if cur \<noteq> [] then cur @ '' '' @ word else word"
  have t: "?t \<noteq> []"
    "js_split CHR '' '' ?t = (if cur \<noteq> [] then js_split CHR '' '' cur else []) @ [word]"
    using w by (simp_all add: js_split_append)
  show ?case
  proof (cases "int (length ?t) \<le> m")
    case True
    then have "wrapLoop m ws lines ?t = (ls, c)"
      using Cons.prems(2) by (simp add: Let_def)
    from Cons.IH [OF rest this] show ?thesis
      using t by (simp add: flush_def)
  next
    case False
    then have "wrapLoop m ws (flush lines cur) word = (ls, c)"
      using Cons.prems(2) by (simp add: Let_def flush_def)
    from Cons.IH [OF rest this] show ?thesis
      using w by (simp add: flush_def)
  qed
qed

lemma wrapWords_words:
  assumes "\<forall>w \<in> set ws. w \<noteq> [] \<and> CHR '' '' \<notin> set w"
  shows "concat (map (js_split CHR '' '') (wrapWords m ws)) = ws"
proof -
  obtain ls c where lc: "wrapLoop m ws [] [] = (ls, c)"
    by (cases "wrapLoop m ws [] []")
  from wrapLoop_words [OF assms lc] show ?thesis
    by (simp add: wrapWords_def lc flush_def)
qed

lemma DESCRIPTION_TEXT_words: "[] \<notin> set (js_split CHR '' '' DESCRIPTION_TEXT)"
  by (simp add: DESCRIPTION_TEXT_def)

lemma DESCRIPTION_TEXT_ext_words: "[] \<notin> set (js_split CHR '' '' DESCRIPTION_TEXT_ext)"
  by (simp add: DESCRIPTION_TEXT_ext_def)

lemma description_words:
  "\<forall>w \<in> set (js_split CHR '' '' DESCRIPTION_TEXT). w \<noteq> [] \<and> CHR '' '' \<notin> set w"
  "\<forall>w \<in> set (js_split CHR '' '' DESCRIPTION_TEXT_ext). w \<noteq> [] \<and> CHR '' '' \<notin> set w"
  using DESCRIPTION_TEXT_words DESCRIPTION_TEXT_ext_words js_split_pieces by metis+

text \<open>
  Claim C1. For every container width the word wrap neither reorders nor drops words:
  splitting each description line on single spaces and concatenating the pieces in line
  order gives the words of the description text, in both variants of the page. (The
  helper \<open>wrapWords_words\<close> shows it for every integer bound, whatever the width.)
\<close>

theorem wrap_keeps_word_sequence:
  "concat (map (js_split CHR '' '') (descriptionLines (getResponsiveConfig containerWidth)))
     = js_split CHR '' '' DESCRIPTION_TEXT
   \<and> concat (map (js_split CHR '' '') (descriptionLines (getResponsiveConfig_ext containerWidth)))
     = js_split CHR '' '' DESCRIPTION_TEXT_ext"
  using description_words
  by (simp add: getResponsiveConfig_def getResponsiveConfig_ext_def getResponsiveConfigOf_def
      wrapWords_words)





lemma max100: "maxCharsPerLine 100 = 8"
  by (simp add: maxCharsPerLine_def descFontSizeOf_def isMobile_def isTablet_def)

lemma words_text: "js_split CHR '' '' DESCRIPTION_TEXT =
  [''Hey!'', ''I'' @ [CHR 0x27] @ ''m'', ''a'', ''product'', ''engineer'', ''based'', ''in'', ''London,'',
   ''interested'', ''in'', ''agentic'', ''systems,'', ''design'', ''systems'', ''and'', ''bringing'',
   ''people'', ''joy'', ''through'', ''software.'', ''I'', ''studied'', ''comp'', ''sci'', ''@'', ''UCL'',
   ''and'', ''work'', ''on'', ''everything'', ''front'', ''end'', ''@'', ''codewords'']"
  by (simp add: DESCRIPTION_TEXT_def)

lemma lines100: "descriptionLines (getResponsiveConfig 100) =
  [''Hey! I'' @ [CHR 0x27] @ ''m'', ''a'', ''product'', ''engineer'', ''based in'', ''London,'',
   ''interested'', ''in'', ''agentic'', ''systems,'', ''design'', ''systems'', ''and'', ''bringing'',
   ''people'', ''joy'', ''through'', ''software.'', ''I'', ''studied'', ''comp sci'', ''@ UCL'',
   ''and work'', ''on'', ''everything'', ''front'', ''end @'', ''codewords'']"
  by (simp add: getResponsiveConfig_def getResponsiveConfigOf_def wrapWords_def max100 words_text)



section \<open>Properties of the disturbance tracker and of reset\<close>


lemma touched_checkForMovement:
  "hasBeenTouched (checkForMovement s) \<longleftrightarrow> hasBeenTouched s \<or> hasMovedLoop (textBodies s)"
  by (simp add: checkForMovement_def Let_def)






section \<open>Properties of the glyph body factory\<close>

lemma grown_refl: "grown s [] s"
  by (simp add: grown_def option.map_ident)

lemma grown_trans:
  assumes "grown s a s1" and "grown s1 b s2"
  shows "grown s (a @ b) s2"
proof -
  have "[nextBodyId s ..< nextBodyId s + length a] @ [nextBodyId s + length a ..< nextBodyId s + length a + length b]
        = [nextBodyId s ..< nextBodyId s + (length a + length b)]"
    by (metis add.assoc le_add1 upt_add_eq_append)
  with assms show ?thesis
    by (cases "engineWorld s") (auto simp: grown_def)
qed

lemma grown_one:
  "grown s [\<lparr> body = fst (Bodies_rectangle px py w h opts s), char = c, fontSize = fs,
              initialX = ix, initialY = iy, isTitle = t \<rparr>]
     ((World_add (fst (Bodies_rectangle px py w h opts s)) (snd (Bodies_rectangle px py w h opts s)))
        \<lparr>textBodies := textBodies s @ [\<lparr> body = fst (Bodies_rectangle px py w h opts s), char = c, fontSize = fs,
              initialX = ix, initialY = iy, isTitle = t \<rparr>]\<rparr>)"
  by (cases "engineWorld s") (simp_all add: grown_def Bodies_rectangle_def World_add_def)

lemma letterLoop_grown:
  "\<exists>new. grown s new (letterLoop fs ox py t i cs s)
      \<and> map glyphOf new = glyphsFrom i ox (cs, fs, py, t)
      \<and> (\<forall>tb \<in> set new. atInitialPose tb)"
proof (induction cs arbitrary: i s)
  case Nil
  show ?case
    by (rule exI [of _ "[]"]) (simp add: grown_refl glyphsFrom_def)
next
  case (Cons c cs)
  show ?case
  proof (cases "c = CHR '' ''")
    case True
    with Cons [of s "Suc i"] show ?thesis
      by (simp add: glyphsFrom_def)
  next
    case False
    define px where "px = (ox + fs * 0.62 / 2) + real i * (fs * 0.62)"
    define tb where "tb = \<lparr> body = fst (Bodies_rectangle px py (fs * 0.62 * 0.9) (fs * 1.1) letterOptions s),
       char = c, fontSize = fs, initialX = px, initialY = py, isTitle = t \<rparr>"
    define s3 where "s3 = (World_add (body tb) (snd (Bodies_rectangle px py (fs * 0.62 * 0.9) (fs * 1.1) letterOptions s)))
        \<lparr>textBodies := textBodies s @ [tb]\<rparr>"
    have g1: "grown s [tb] s3"
      unfolding tb_def s3_def using grown_one [of s px py _ _ letterOptions c fs px py t] by simp
    have unfold: "letterLoop fs ox py t i (c # cs) s = letterLoop fs ox py t (Suc i) cs s3"
      using False
      by (simp add: Let_def split_beta px_def tb_def s3_def World_add_def Bodies_rectangle_def)
    from Cons [of s3 "Suc i"] obtain new where
      n: "grown s3 new (letterLoop fs ox py t (Suc i) cs s3)"
         "map glyphOf new = glyphsFrom (Suc i) ox (cs, fs, py, t)"
         "\<forall>tb \<in> set new. atInitialPose tb"
      by blast
    have "grown s ([tb] @ new) (letterLoop fs ox py t i (c # cs) s)"
      unfolding unfold using grown_trans [OF g1 n(1)] .
    moreover have "map glyphOf ([tb] @ new) = glyphsFrom i ox (c # cs, fs, py, t)"
      using False n(2) by (simp add: glyphsFrom_def glyphOf_def tb_def px_def)
    moreover have "atInitialPose tb"
      by (simp add: atInitialPose_def tb_def Bodies_rectangle_def)
    then have "\<forall>tb \<in> set ([tb] @ new). atInitialPose tb"
      using n(3) by simp
    ultimately show ?thesis by blast
  qed
qed


lemma titleLinesLoop_grown:
  "\<exists>new. grown s new (titleLinesLoop ox tls s)
      \<and> map glyphOf new = concat (map (\<lambda>(text, fs, py). lineGlyphs ox (text, fs, py, True)) tls)
      \<and> (\<forall>tb \<in> set new. atInitialPose tb)"
proof (induction tls arbitrary: s)
  case Nil
  show ?case by (rule exI [of _ "[]"]) (simp add: grown_refl)
next
  case (Cons tl tls)
  obtain str fs py where tl: "tl = (str, fs, py)" by (cases tl)
  let ?s1 = "letterLoop fs ox py True 0 str s"
  from letterLoop_grown [of s fs ox py True 0 str] obtain a where
    a: "grown s a ?s1" "map glyphOf a = lineGlyphs ox (str, fs, py, True)"
       "\<forall>tb \<in> set a. atInitialPose tb"
    unfolding lineGlyphs_def by blast
  from Cons [of ?s1] obtain b where
    b: "grown ?s1 b (titleLinesLoop ox tls ?s1)"
       "map glyphOf b = concat (map (\<lambda>(text, fs, py). lineGlyphs ox (text, fs, py, True)) tls)"
       "\<forall>tb \<in> set b. atInitialPose tb"
    by blast
  have "grown s (a @ b) (titleLinesLoop ox (tl # tls) s)"
    using grown_trans [OF a(1) b(1)] by (simp add: tl)
  moreover have "map glyphOf (a @ b)
      = concat (map (\<lambda>(text, fs, py). lineGlyphs ox (text, fs, py, True)) (tl # tls))"
    using a(2) b(2) by (simp add: tl)
  moreover have "\<forall>tb \<in> set (a @ b). atInitialPose tb"
    using a(3) b(3) by auto
  ultimately show ?case by blast
qed

lemma descriptionLinesLoop_grown:
  "\<exists>new. grown s new (descriptionLinesLoop ox dfs dsy dlh k dls s)
      \<and> map glyphOf new
          = concat (map (\<lambda>(k, text). lineGlyphs ox (text, dfs, dsy + real k * dlh, False))
                      (enumerate k dls))
      \<and> (\<forall>tb \<in> set new. atInitialPose tb)"
proof (induction dls arbitrary: s k)
  case Nil
  show ?case by (rule exI [of _ "[]"]) (simp add: grown_refl)
next
  case (Cons str dls)
  let ?s1 = "letterLoop dfs ox (dsy + real k * dlh) False 0 str s"
  from letterLoop_grown [of s dfs ox "dsy + real k * dlh" False 0 str] obtain a where
    a: "grown s a ?s1" "map glyphOf a = lineGlyphs ox (str, dfs, dsy + real k * dlh, False)"
       "\<forall>tb \<in> set a. atInitialPose tb"
    unfolding lineGlyphs_def by blast
  from Cons [of ?s1 "Suc k"] obtain b where
    b: "grown ?s1 b (descriptionLinesLoop ox dfs dsy dlh (Suc k) dls ?s1)"
       "map glyphOf b
          = concat (map (\<lambda>(k, text). lineGlyphs ox (text, dfs, dsy + real k * dlh, False))
                      (enumerate (Suc k) dls))"
       "\<forall>tb \<in> set b. atInitialPose tb"
    by blast
  have "grown s (a @ b) (descriptionLinesLoop ox dfs dsy dlh k (str # dls) s)"
    using grown_trans [OF a(1) b(1)] by simp
  moreover have "map glyphOf (a @ b)
      = concat (map (\<lambda>(k, text). lineGlyphs ox (text, dfs, dsy + real k * dlh, False))
                  (enumerate k (str # dls)))"
    using a(2) b(2) by simp
  moreover have "\<forall>tb \<in> set (a @ b). atInitialPose tb"
    using a(3) b(3) by auto
  ultimately show ?case by blast
qed

lemma foldl_World_remove:
  "foldl (\<lambda>s1 tb. World_remove (f tb) s1) s tbs
     = s\<lparr>engineWorld := map_option (\<lambda>world. foldl (\<lambda>w tb. remove1 (bodyId (f tb)) w) world tbs)
                           (engineWorld s)\<rparr>"
proof (induction tbs arbitrary: s)
  case Nil
  show ?case by (simp add: option.map_ident)
next
  case (Cons tb tbs)
  have "foldl (\<lambda>s1 tb. World_remove (f tb) s1) s (tb # tbs)
        = foldl (\<lambda>s1 tb. World_remove (f tb) s1) (World_remove (f tb) s) tbs"
    by simp
  also note Cons [of "World_remove (f tb) s"]
  finally show ?case
    by (cases "engineWorld s") (simp_all add: World_remove_def)
qed

lemma clearTextBodies_eq:
  "clearTextBodies s
     = s\<lparr>engineWorld := map_option (\<lambda>world. foldl (\<lambda>w tb. remove1 (bodyId (body tb)) w) world (textBodies s))
                           (engineWorld s),
         textBodies := []\<rparr>"
  by (simp add: clearTextBodies_def foldl_World_remove)

lemma letters_rebuilt:
  assumes "s1 = clearTextBodies s"
    and "s' = descriptionLinesLoop ox (descFontSize cfg) (oy + 50 + lineHeight cfg * 2 + 40)
                (descLineHeight cfg) 0 (descriptionLines cfg)
                (titleLinesLoop ox [(''AMMAN VEDI'', titleFontSize cfg, oy + 50),
                                    (title2, titleFontSize cfg, oy + 50 + lineHeight cfg)] s1)"
  shows "glyphsRebuilt ox (layoutLines title2 cfg oy) s s'
       \<and> walls s' = walls s \<and> mouseBody s' = mouseBody s
       \<and> hasBeenTouched s' = hasBeenTouched s \<and> showResetButton s' = showResetButton s
       \<and> nextBodyId s' = nextBodyId s + length (textBodies s')"
proof -
  let ?tls = "[(''AMMAN VEDI'', titleFontSize cfg, oy + 50),
               (title2, titleFontSize cfg, oy + 50 + lineHeight cfg)]"
  let ?s2 = "titleLinesLoop ox ?tls s1"
  from titleLinesLoop_grown [of s1 ox ?tls] obtain a where
    a: "grown s1 a ?s2"
       "map glyphOf a = concat (map (\<lambda>(text, fs, py). lineGlyphs ox (text, fs, py, True)) ?tls)"
       "\<forall>tb \<in> set a. atInitialPose tb"
    by blast
  from descriptionLinesLoop_grown [of ?s2 ox "descFontSize cfg" "oy + 50 + lineHeight cfg * 2 + 40"
      "descLineHeight cfg" 0 "descriptionLines cfg"] obtain b where
    b: "grown ?s2 b s'"
       "map glyphOf b
          = concat (map (\<lambda>(k, text). lineGlyphs ox (text, descFontSize cfg,
                           oy + 50 + lineHeight cfg * 2 + 40 + real k * descLineHeight cfg, False))
                      (enumerate 0 (descriptionLines cfg)))"
       "\<forall>tb \<in> set b. atInitialPose tb"
    unfolding assms(2) by blast
  have g: "grown s1 (a @ b) s'"
    using grown_trans [OF a(1) b(1)] .
  have tb: "textBodies s' = a @ b"
    using g by (simp add: grown_def assms(1) clearTextBodies_eq del: letterLoop.simps titleLinesLoop.simps)
  have "map glyphOf (a @ b) = map glyphOf a @ map glyphOf b"
    by simp
  also have "\<dots> = concat (map (\<lambda>(str, fs, py). lineGlyphs ox (str, fs, py, True)) ?tls)
        @ concat (map (\<lambda>(k, str). lineGlyphs ox (str, descFontSize cfg,
                           oy + 50 + lineHeight cfg * 2 + 40 + real k * descLineHeight cfg, False))
                      (enumerate 0 (descriptionLines cfg)))"
    by (simp only: a(2) b(2))
  also have "\<dots> = concat (map (lineGlyphs ox) (layoutLines title2 cfg oy))"
    by (simp add: layoutLines_def comp_def case_prod_unfold)
  finally have "map glyphOf (a @ b) = concat (map (lineGlyphs ox) (layoutLines title2 cfg oy))" .
  moreover have "list_all atInitialPose (a @ b)"
    using a(3) b(3) by (auto simp: list_all_iff)
  ultimately show ?thesis
    using g unfolding tb
    by (cases "engineWorld s")
      (simp_all add: glyphsRebuilt_def grown_def assms(1) clearTextBodies_eq
        del: letterLoop.simps titleLinesLoop.simps)
qed

lemma createLetterBodies_rebuilt:
  assumes "engineWorld s = Some world"
  shows "glyphsRebuilt ox (layoutLines ''PRODUCT ENGINEER'' (getResponsiveConfig cw) oy) s
           (createLetterBodies cw ox oy s)"
    and "walls (createLetterBodies cw ox oy s) = walls s"
    and "mouseBody (createLetterBodies cw ox oy s) = mouseBody s"
    and "hasBeenTouched (createLetterBodies cw ox oy s) = hasBeenTouched s"
    and "showResetButton (createLetterBodies cw ox oy s) = showResetButton s"
    and "nextBodyId (createLetterBodies cw ox oy s)
           = nextBodyId s + length (textBodies (createLetterBodies cw ox oy s))"
  using letters_rebuilt [OF refl refl, where ox = ox and cfg = "getResponsiveConfig cw" and oy = oy
      and ?title2.0 = "''PRODUCT ENGINEER''" and s = s] assms
  by (simp_all add: createLetterBodies_def Let_def del: letterLoop.simps titleLinesLoop.simps)

lemma createLetterBodies_ext_rebuilt:
  assumes "engineWorld s = Some world"
  shows "glyphsRebuilt CANVAS_EXTENSION (layoutLines ''SOFTWARE ENGINEER'' (getResponsiveConfig_ext cw) 0) s
           (createLetterBodies_ext cw s)"
    and "walls (createLetterBodies_ext cw s) = walls s"
    and "mouseBody (createLetterBodies_ext cw s) = mouseBody s"
    and "hasBeenTouched (createLetterBodies_ext cw s) = hasBeenTouched s"
    and "showResetButton (createLetterBodies_ext cw s) = showResetButton s"
    and "nextBodyId (createLetterBodies_ext cw s)
           = nextBodyId s + length (textBodies (createLetterBodies_ext cw s))"
  using letters_rebuilt [OF refl refl, where ox = CANVAS_EXTENSION and cfg = "getResponsiveConfig_ext cw"
      and oy = 0 and ?title2.0 = "''SOFTWARE ENGINEER''" and s = s] assms
  by (simp_all add: createLetterBodies_ext_def Let_def del: letterLoop.simps titleLinesLoop.simps)

lemma length_glyphsFrom: "length (glyphsFrom i ox (str, fs, py, t)) = nonSpace str"
  by (induction str arbitrary: i) (simp_all add: glyphsFrom_def nonSpace_def)

lemma length_lineGlyphs: "length (lineGlyphs ox textLine) = nonSpace (fst textLine)"
  by (cases textLine) (simp add: lineGlyphs_def length_glyphsFrom)

lemma length_layout_glyphs:
  "length (concat (map (lineGlyphs ox) (layoutLines title2 cfg oy)))
     = nonSpace ''AMMAN VEDI'' + nonSpace title2 + sum_list (map nonSpace (descriptionLines cfg))"
proof -
  have "map (\<lambda>x. nonSpace (snd x)) (enumerate n ls) = map nonSpace ls" for n ls
    by (induction ls arbitrary: n) simp_all
  then show ?thesis
    by (simp add: layoutLines_def length_concat comp_def length_lineGlyphs case_prod_unfold)
qed

text \<open>
  Claim C6. For every container width, once the factory has run on a scene that has an
  engine, the glyph bodies recorded are as many as the characters other than spaces of
  the two title lines and of the wrapped description lines of that width together. They
  are the glyphs of these lines in order (\<open>glyphsRebuilt\<close>, \<open>lineGlyphs\<close>): none for a
  space, and the character at index \<open>i\<close> of a line at \<open>startX + i * charWidth\<close>, so a
  space still moves the cursor on. Each is added to the world as a new body at rest at
  that position. Both variants of the page.
\<close>

theorem glyph_bodies_created:
  assumes "engineWorld s = Some world"
  shows "(let cfg = getResponsiveConfig containerWidth;
              s' = createLetterBodies containerWidth offsetX offsetY s
          in length (textBodies s')
               = nonSpace ''AMMAN VEDI'' + nonSpace ''PRODUCT ENGINEER''
                 + sum_list (map nonSpace (descriptionLines cfg))
             \<and> glyphsRebuilt offsetX (layoutLines ''PRODUCT ENGINEER'' cfg offsetY) s s')
       \<and> (let cfg = getResponsiveConfig_ext containerWidth;
               s' = createLetterBodies_ext containerWidth s
           in length (textBodies s')
                = nonSpace ''AMMAN VEDI'' + nonSpace ''SOFTWARE ENGINEER''
                  + sum_list (map nonSpace (descriptionLines cfg))
              \<and> glyphsRebuilt CANVAS_EXTENSION (layoutLines ''SOFTWARE ENGINEER'' cfg 0) s s')"
proof -
  have len: "length (textBodies s') = length (concat (map (lineGlyphs ox) ls))"
    if "glyphsRebuilt ox ls s s'" for ox ls s'
    using that unfolding glyphsRebuilt_def by (metis length_map)
  note a = createLetterBodies_rebuilt(1) [OF assms, of offsetX containerWidth offsetY]
  note b = createLetterBodies_ext_rebuilt(1) [OF assms, of containerWidth]
  show ?thesis
    using a b len [OF a] len [OF b]
    by (simp add: Let_def length_layout_glyphs)
qed

lemma cfg100: "titleFontSize (getResponsiveConfig 100) = 20" "lineHeight (getResponsiveConfig 100) = 28"
  "descFontSize (getResponsiveConfig 100) = 16" "descLineHeight (getResponsiveConfig 100) = 24"
  by (simp_all add: getResponsiveConfig_def getResponsiveConfigOf_def isMobile_def descFontSizeOf_def)

theorem glyph_bodies_created_witness:
  "engineWorld ((initialRefs 0)\<lparr>engineWorld := Some []\<rparr>) = Some []
   \<and> length (textBodies (createLetterBodies 100 0 0 ((initialRefs 0)\<lparr>engineWorld := Some []\<rparr>))) = 193
   \<and> take 6 (map glyphOf (textBodies (createLetterBodies 100 0 0 ((initialRefs 0)\<lparr>engineWorld := Some []\<rparr>))))
       = [(CHR ''A'', 6.2, 50, 20, True), (CHR ''M'', 18.6, 50, 20, True), (CHR ''M'', 31, 50, 20, True),
          (CHR ''A'', 43.4, 50, 20, True), (CHR ''N'', 55.8, 50, 20, True), (CHR ''V'', 80.6, 50, 20, True)]"
  using glyph_bodies_created [of "(initialRefs 0)\<lparr>engineWorld := Some []\<rparr>" "[]" 100 0 0]
  by (simp add: Let_def glyphsRebuilt_def layoutLines_def lineGlyphs_def glyphsFrom_def nonSpace_def
      lines100 cfg100 enumerate_eq_zip)

section \<open>Properties of the boundary manager and of resizing\<close>

lemma foldl_remove1:
  "distinct w \<Longrightarrow>
     distinct (foldl (\<lambda>w x. remove1 (f x) w) w xs)
   \<and> set (foldl (\<lambda>w x. remove1 (f x) w) w xs) = set w - f ` set xs"
proof (induction xs arbitrary: w)
  case Nil
  then show ?case by simp
next
  case (Cons x xs)
  from Cons.IH [of "remove1 (f x) w"] Cons.prems show ?case
    by auto
qed

lemma foldl_World_add:
  "foldl (\<lambda>s1 wall. World_add wall s1) s ws
     = s\<lparr>engineWorld := map_option (\<lambda>world. world @ map bodyId ws) (engineWorld s)\<rparr>"
proof (induction ws arbitrary: s)
  case Nil
  show ?case by (simp add: option.map_ident)
next
  case (Cons b ws)
  have "foldl (\<lambda>s1 wall. World_add wall s1) s (b # ws)
        = foldl (\<lambda>s1 wall. World_add wall s1) (World_add b s) ws"
    by simp
  also note Cons [of "World_add b s"]
  finally show ?case
    by (cases "engineWorld s") (simp_all add: World_add_def)
qed

lemma createWalls_ext_eq:
  assumes "engineWorld s = Some world"
  shows "createWalls_ext width height s
     = s\<lparr>engineWorld := Some (foldl (\<lambda>w b. remove1 (bodyId b) w) world (walls s)
                               @ [nextBodyId s, nextBodyId s + 1, nextBodyId s + 2, nextBodyId s + 3]),
         nextBodyId := nextBodyId s + 4,
         walls := [\<lparr> bodyId = nextBodyId s, position = (width / 2, height + 50), angle = 0,
                     velocity = (0, 0), angularVelocity = 0, shape = Rectangle (width * 2) 100,
                     options = wallOptions \<rparr>,
                   \<lparr> bodyId = nextBodyId s + 1, position = (width / 2, - 50), angle = 0,
                     velocity = (0, 0), angularVelocity = 0, shape = Rectangle (width * 2) 100,
                     options = wallOptions \<rparr>,
                   \<lparr> bodyId = nextBodyId s + 2, position = (- 50, height / 2), angle = 0,
                     velocity = (0, 0), angularVelocity = 0, shape = Rectangle 100 (height * 2),
                     options = wallOptions \<rparr>,
                   \<lparr> bodyId = nextBodyId s + 3, position = (width + 50, height / 2), angle = 0,
                     velocity = (0, 0), angularVelocity = 0, shape = Rectangle 100 (height * 2),
                     options = wallOptions \<rparr>]\<rparr>"
  using assms
  by (simp add: createWalls_ext_def removeOldWalls_def foldl_World_remove foldl_World_add
      Bodies_rectangle_def Let_def)

lemma createWalls_eq:
  assumes "engineWorld s = Some world"
  shows "createWalls width s = createWalls_ext width 2000 s"
  using assms by (simp add: createWalls_def createWalls_ext_def Let_def)


lemma createWalls_ext_world:
  assumes "engineWorld s = Some world" and "sceneOk s"
  shows "\<exists>world'. engineWorld (createWalls_ext width height s) = Some world'
           \<and> distinct world'
           \<and> set world' = (set world - bodyId ` set (walls s))
                \<union> {nextBodyId s, nextBodyId s + 1, nextBodyId s + 2, nextBodyId s + 3}"
proof -
  let ?rem = "foldl (\<lambda>w b. remove1 (bodyId b) w) world (walls s)"
  let ?new = "[nextBodyId s, nextBodyId s + 1, nextBodyId s + 2, nextBodyId s + 3]"
  have d: "distinct world" and below: "\<forall>i \<in> set world. i < nextBodyId s"
    using assms by (simp_all add: sceneOk_def list_all_iff)
  from foldl_remove1 [OF d, of bodyId "walls s"]
  have r: "distinct ?rem" "set ?rem = set world - bodyId ` set (walls s)"
    by simp_all
  have "set ?rem \<inter> set ?new = {}"
    using r(2) below by auto
  then have "distinct (?rem @ ?new)"
    using r(1) by simp
  moreover have "set (?rem @ ?new) = (set world - bodyId ` set (walls s))
                \<union> {nextBodyId s, nextBodyId s + 1, nextBodyId s + 2, nextBodyId s + 3}"
    using r(2) by auto
  ultimately show ?thesis
    unfolding createWalls_ext_eq [OF assms(1)] by simp
qed

lemma createWalls_ext_rebuilt:
  assumes "engineWorld s = Some world" and "sceneOk s"
  shows "wallsRebuilt width height s (createWalls_ext width height s)"
    and "sceneOk (createWalls_ext width height s)"
    and "textBodies (createWalls_ext width height s) = textBodies s"
    and "hasBeenTouched (createWalls_ext width height s) = hasBeenTouched s"
    and "nextBodyId (createWalls_ext width height s) = nextBodyId s + 4"
    and "map bodyId (walls (createWalls_ext width height s))
           = [nextBodyId s, nextBodyId s + 1, nextBodyId s + 2, nextBodyId s + 3]"
proof -
  let ?s' = "createWalls_ext width height s"
  from createWalls_ext_world [OF assms, of width height] obtain world' where
    w: "engineWorld ?s' = Some world'" "distinct world'"
       "set world' = (set world - bodyId ` set (walls s))
          \<union> {nextBodyId s, nextBodyId s + 1, nextBodyId s + 2, nextBodyId s + 3}"
    by blast
  have old: "\<forall>b \<in> set (walls s). bodyId b < nextBodyId s"
    and below: "\<forall>i \<in> set world. i < nextBodyId s"
    and glyphs: "\<forall>tb \<in> set (textBodies s). bodyId (body tb) < nextBodyId s"
    using assms by (simp_all add: sceneOk_def list_all_iff)
  show ids: "map bodyId (walls ?s') = [nextBodyId s, nextBodyId s + 1, nextBodyId s + 2, nextBodyId s + 3]"
    and nxt: "nextBodyId ?s' = nextBodyId s + 4"
    and tbs: "textBodies ?s' = textBodies s"
    and "hasBeenTouched ?s' = hasBeenTouched s"
    unfolding createWalls_ext_eq [OF assms(1)] by simp_all
  have "bodiesReplaced (map bodyId (walls s)) (map bodyId (walls ?s')) ?s'"
    unfolding bodiesReplaced_def ids using w(1,3) old by auto
  moreover have "map (\<lambda>b. (position b, shape b, isStatic (options b))) (walls ?s')
       = [((width / 2, height + 50), Rectangle (width * 2) 100, True),
          ((width / 2, - 50), Rectangle (width * 2) 100, True),
          ((- 50, height / 2), Rectangle 100 (height * 2), True),
          ((width + 50, height / 2), Rectangle 100 (height * 2), True)]"
    unfolding createWalls_ext_eq [OF assms(1)] by (simp add: wallOptions_def)
  ultimately show "wallsRebuilt width height s ?s'"
    by (simp add: wallsRebuilt_def)
  have "\<forall>i \<in> set world'. i < nextBodyId s + 4"
    using w(3) below by auto
  moreover have "\<forall>b \<in> set (walls ?s'). bodyId b < nextBodyId s + 4"
  proof
    fix b assume "b \<in> set (walls ?s')"
    then have "bodyId b \<in> set (map bodyId (walls ?s'))" by simp
    then show "bodyId b < nextBodyId s + 4" unfolding ids by auto
  qed
  moreover have "\<forall>tb \<in> set (textBodies s). bodyId (body tb) < nextBodyId s + 4"
    using glyphs by auto
  ultimately show "sceneOk ?s'"
    using w(1,2) by (simp add: sceneOk_def list_all_iff nxt tbs)
qed

lemma glyphsRebuilt_world:
  assumes g: "glyphsRebuilt ox ls s s'" and e: "engineWorld s = Some world" and ok: "sceneOk s"
  shows "\<exists>world'. engineWorld s' = Some world' \<and> distinct world'
           \<and> set world' = (set world - (\<lambda>tb. bodyId (body tb)) ` set (textBodies s))
                \<union> {nextBodyId s ..< nextBodyId s + length (textBodies s')}"
    and "(\<lambda>tb. bodyId (body tb)) ` set (textBodies s')
           = {nextBodyId s ..< nextBodyId s + length (textBodies s')}"
proof -
  let ?rem = "foldl (\<lambda>w tb. remove1 (bodyId (body tb)) w) world (textBodies s)"
  let ?new = "map (\<lambda>tb. bodyId (body tb)) (textBodies s')"
  have d: "distinct world" and below: "\<forall>i \<in> set world. i < nextBodyId s"
    using e ok by (simp_all add: sceneOk_def list_all_iff)
  have new: "?new = [nextBodyId s ..< nextBodyId s + length (textBodies s')]"
    and w': "engineWorld s' = Some (?rem @ ?new)"
    using g e by (simp_all add: glyphsRebuilt_def)
  from foldl_remove1 [OF d, of "\<lambda>tb. bodyId (body tb)" "textBodies s"]
  have r: "distinct ?rem" "set ?rem = set world - (\<lambda>tb. bodyId (body tb)) ` set (textBodies s)"
    by simp_all
  have sn: "set ?new = {nextBodyId s ..< nextBodyId s + length (textBodies s')}"
    unfolding new by simp
  then show "(\<lambda>tb. bodyId (body tb)) ` set (textBodies s')
           = {nextBodyId s ..< nextBodyId s + length (textBodies s')}"
    by simp
  have "set ?rem \<inter> set ?new = {}"
    unfolding sn using r(2) below by auto
  moreover have "distinct ?new"
    unfolding new by simp
  ultimately have "distinct (?rem @ ?new)"
    using r(1) by simp
  moreover have "set (?rem @ ?new) = (set world - (\<lambda>tb. bodyId (body tb)) ` set (textBodies s))
                \<union> {nextBodyId s ..< nextBodyId s + length (textBodies s')}"
    using r(2) sn by simp
  ultimately show "\<exists>world'. engineWorld s' = Some world' \<and> distinct world'
           \<and> set world' = (set world - (\<lambda>tb. bodyId (body tb)) ` set (textBodies s))
                \<union> {nextBodyId s ..< nextBodyId s + length (textBodies s')}"
    using w' by blast
qed


lemma resized_after_letters:
  assumes e: "engineWorld s = Some world" and ok: "sceneOk s"
    and s1: "s1 = createWalls_ext width height s"
    and g: "glyphsRebuilt ox ls s1 s'"
    and ws: "walls s' = walls s1"
    and nxt: "nextBodyId s' = nextBodyId s1 + length (textBodies s')"
  shows "wallsRebuilt width height s s'" and "glyphsReplaced ox ls s s'" and "sceneOk s'"
proof -
  note cw = createWalls_ext_rebuilt [OF e ok, of width height, folded s1]
  from createWalls_ext_world [OF e ok, of width height, folded s1] obtain world1 where
    w1: "engineWorld s1 = Some world1" "distinct world1"
        "set world1 = (set world - bodyId ` set (walls s))
           \<union> {nextBodyId s, nextBodyId s + 1, nextBodyId s + 2, nextBodyId s + 3}"
    by blast
  from glyphsRebuilt_world [OF g w1(1) cw(2)] obtain world' where
    w': "engineWorld s' = Some world'" "distinct world'"
        "set world' = (set world1 - (\<lambda>tb. bodyId (body tb)) ` set (textBodies s1))
           \<union> {nextBodyId s1 ..< nextBodyId s1 + length (textBodies s')}"
    and new: "(\<lambda>tb. bodyId (body tb)) ` set (textBodies s')
           = {nextBodyId s1 ..< nextBodyId s1 + length (textBodies s')}"
    by blast
  have old: "\<forall>b \<in> set (walls s). bodyId b < nextBodyId s"
    and below: "\<forall>i \<in> set world. i < nextBodyId s"
    and glyphs: "\<forall>tb \<in> set (textBodies s). bodyId (body tb) < nextBodyId s"
    using e ok by (simp_all add: sceneOk_def list_all_iff)
  have n1: "nextBodyId s1 = nextBodyId s + 4" and t1: "textBodies s1 = textBodies s"
    using cw(5) cw(3) by simp_all
  have ids: "set (map bodyId (walls s'))
      = {nextBodyId s, nextBodyId s + 1, nextBodyId s + 2, nextBodyId s + 3}"
    unfolding ws cw(6) by simp
  have "bodiesReplaced (map bodyId (walls s)) (map bodyId (walls s')) s'"
    unfolding bodiesReplaced_def ids
    using w'(1,3) w1(3) old glyphs by (auto simp: n1 t1)
  moreover have "map (\<lambda>b. (position b, shape b, isStatic (options b))) (walls s')
       = [((width / 2, height + 50), Rectangle (width * 2) 100, True),
          ((width / 2, - 50), Rectangle (width * 2) 100, True),
          ((- 50, height / 2), Rectangle 100 (height * 2), True),
          ((width + 50, height / 2), Rectangle 100 (height * 2), True)]"
    using cw(1) unfolding ws wallsRebuilt_def by simp
  ultimately show "wallsRebuilt width height s s'"
    by (simp add: wallsRebuilt_def)
  have "bodiesReplaced (map (\<lambda>tb. bodyId (body tb)) (textBodies s))
          (map (\<lambda>tb. bodyId (body tb)) (textBodies s')) s'"
    unfolding bodiesReplaced_def
    using w'(1,3) new glyphs by (auto simp: n1 t1)
  then show "glyphsReplaced ox ls s s'"
    using g by (simp add: glyphsReplaced_def glyphsRebuilt_def)
  have "\<forall>i \<in> set world'. i < nextBodyId s'"
    unfolding nxt w'(3) w1(3) n1 using below by auto
  moreover have "\<forall>b \<in> set (walls s'). bodyId b < nextBodyId s'"
  proof
    fix b assume "b \<in> set (walls s')"
    then have "bodyId b \<in> set (map bodyId (walls s'))" by simp
    then show "bodyId b < nextBodyId s'" unfolding ids nxt n1 by auto
  qed
  moreover have "\<forall>tb \<in> set (textBodies s'). bodyId (body tb) < nextBodyId s'"
  proof
    fix tb assume "tb \<in> set (textBodies s')"
    then have "bodyId (body tb) \<in> (\<lambda>tb. bodyId (body tb)) ` set (textBodies s')" by simp
    then show "bodyId (body tb) < nextBodyId s'" unfolding new nxt by simp
  qed
  ultimately show "sceneOk s'"
    using w'(1,2) by (simp add: sceneOk_def list_all_iff)
qed

lemma handleResize_ext_resized:
  assumes h: "heroRect d = Some (heroWidth, heroHeight, heroLeft, heroTop)"
    and e: "engineWorld s = Some world" and ok: "sceneOk s"
  shows "resized (heroWidth + 400) heroHeight CANVAS_EXTENSION
           (layoutLines ''SOFTWARE ENGINEER'' (getResponsiveConfig_ext heroWidth) 0)
           s (handleResize_ext d s)"
    and "sceneOk (handleResize_ext d s)"
proof -
  define s1 where "s1 = createWalls_ext (heroWidth + 400) heroHeight s"
  note cw = createWalls_ext_rebuilt [OF e ok, of "heroWidth + 400" heroHeight, folded s1_def]
  from createWalls_ext_world [OF e ok, of "heroWidth + 400" heroHeight, folded s1_def]
  obtain world1 where w1: "engineWorld s1 = Some world1" by blast
  note lb = createLetterBodies_ext_rebuilt [OF w1, where cw = heroWidth]
  note r = resized_after_letters [OF e ok s1_def lb(1) lb(2) lb(6)]
  have hr: "handleResize_ext d s
      = (if \<not> hasBeenTouched s then createLetterBodies_ext heroWidth s1 else s1)"
    using h cw(4) by (simp add: handleResize_ext_def Let_def s1_def CANVAS_EXTENSION_def)
  show "resized (heroWidth + 400) heroHeight CANVAS_EXTENSION
           (layoutLines ''SOFTWARE ENGINEER'' (getResponsiveConfig_ext heroWidth) 0)
           s (handleResize_ext d s)"
    unfolding hr resized_def using r(1,2) cw(1,3,4) lb(4) by simp
  show "sceneOk (handleResize_ext d s)"
    unfolding hr using r(3) cw(2) by simp
qed

lemma handleResize_resized:
  assumes h: "heroRect d = Some (heroWidth, heroHeight, heroLeft, heroTop)"
    and e: "engineWorld s = Some world" and ok: "sceneOk s"
  shows "resized (innerWidth d) 2000 heroLeft
           (layoutLines ''PRODUCT ENGINEER'' (getResponsiveConfig heroWidth) heroTop)
           s (handleResize d s)"
    and "sceneOk (handleResize d s)"
proof -
  define s1 where "s1 = createWalls_ext (innerWidth d) 2000 s"
  note cw = createWalls_ext_rebuilt [OF e ok, of "innerWidth d" 2000, folded s1_def]
  from createWalls_ext_world [OF e ok, of "innerWidth d" 2000, folded s1_def]
  obtain world1 where w1: "engineWorld s1 = Some world1" by blast
  note lb = createLetterBodies_rebuilt [OF w1, where ox = heroLeft and cw = heroWidth and oy = heroTop]
  note r = resized_after_letters [OF e ok s1_def lb(1) lb(2) lb(6)]
  have hr: "handleResize d s
      = (if \<not> hasBeenTouched s then createLetterBodies heroWidth heroLeft heroTop s1 else s1)"
    using h cw(4) by (simp add: handleResize_def Let_def s1_def createWalls_eq [OF e])
  show "resized (innerWidth d) 2000 heroLeft
           (layoutLines ''PRODUCT ENGINEER'' (getResponsiveConfig heroWidth) heroTop)
           s (handleResize d s)"
    unfolding hr resized_def using r(1,2) cw(1,3,4) lb(4) by simp
  show "sceneOk (handleResize d s)"
    unfolding hr using r(3) cw(2) by simp
qed

text \<open>
  Claim C5. On a resize of a mounted scene (the hero element is there, the engine
  exists): the boundary bodies are taken out of the world and four new ones for the new
  dimensions are put in, whether the scene was touched or not; when it was not touched,
  the glyph bodies are replaced by new ones at rest at the initial positions of the
  layout of the new width; when it was touched, the list of glyph bodies with all their
  poses, velocities and metadata is what it was. Both variants of the page.
\<close>

theorem resize_rebuilds:
  assumes "heroRect d = Some (heroWidth, heroHeight, heroLeft, heroTop)"
    and "engineWorld s = Some world" and "sceneOk s"
  shows "resized (innerWidth d) 2000 heroLeft
           (layoutLines ''PRODUCT ENGINEER'' (getResponsiveConfig heroWidth) heroTop)
           s (handleResize d s)
       \<and> resized (heroWidth + 400) heroHeight CANVAS_EXTENSION
           (layoutLines ''SOFTWARE ENGINEER'' (getResponsiveConfig_ext heroWidth) 0)
           s (handleResize_ext d s)"
  using handleResize_resized(1) [OF assms] handleResize_ext_resized(1) [OF assms] by simp

lemma exampleScene_ok: "sceneOk (exampleScene touched)"
  by (simp add: sceneOk_def exampleScene_def exampleGlyph_def exampleWall_def)

theorem resize_rebuilds_witness:
  "heroRect exampleDom = Some (100, 320, 10, 20)
   \<and> engineWorld (exampleScene True) = Some [0, 3] \<and> sceneOk (exampleScene True)
   \<and> engineWorld (exampleScene False) = Some [0, 3] \<and> sceneOk (exampleScene False)
   \<and> textBodies (handleResize exampleDom (exampleScene True)) = [exampleGlyph (300, 7) 2]
   \<and> map (\<lambda>b. (position b, shape b, isStatic (options b)))
         (walls (handleResize exampleDom (exampleScene True)))
       = [((500, 2050), Rectangle 2000 100, True), ((500, - 50), Rectangle 2000 100, True),
          ((- 50, 1000), Rectangle 100 4000, True), ((1050, 1000), Rectangle 100 4000, True)]
   \<and> map (\<lambda>b. (position b, shape b, isStatic (options b)))
         (walls (handleResize_ext exampleDom (exampleScene True)))
       = [((250, 370), Rectangle 1000 100, True), ((250, - 50), Rectangle 1000 100, True),
          ((- 50, 160), Rectangle 100 640, True), ((550, 160), Rectangle 100 640, True)]
   \<and> take 6 (map glyphOf (textBodies (handleResize exampleDom (exampleScene False))))
       = [(CHR ''A'', 16.2, 70, 20, True), (CHR ''M'', 28.6, 70, 20, True),
          (CHR ''M'', 41, 70, 20, True), (CHR ''A'', 53.4, 70, 20, True),
          (CHR ''N'', 65.8, 70, 20, True), (CHR ''V'', 90.6, 70, 20, True)]"
  using resize_rebuilds [of exampleDom 100 320 10 20 "exampleScene True" "[0, 3]"]
    resize_rebuilds [of exampleDom 100 320 10 20 "exampleScene False" "[0, 3]"]
    exampleScene_ok lines100 cfg100
  by (simp add: resized_def wallsRebuilt_def glyphsReplaced_def exampleDom_def exampleScene_def
      layoutLines_def lineGlyphs_def glyphsFrom_def enumerate_eq_zip)

section \<open>The touched flag along a page view\<close>

lemma touched_createWalls_ext [simp]:
  "hasBeenTouched (createWalls_ext width height s) = hasBeenTouched s"
proof (cases "engineWorld s")
  case None
  then show ?thesis by (simp add: createWalls_ext_def)
next
  case (Some world)
  show ?thesis unfolding createWalls_ext_eq [OF Some] by simp
qed

lemma touched_createWalls [simp]:
  "hasBeenTouched (createWalls width s) = hasBeenTouched s"
proof (cases "engineWorld s")
  case None
  then show ?thesis by (simp add: createWalls_def)
next
  case (Some world)
  show ?thesis unfolding createWalls_eq [OF Some] by simp
qed

lemma touched_createLetterBodies [simp]:
  "hasBeenTouched (createLetterBodies cw ox oy s) = hasBeenTouched s"
proof (cases "engineWorld s")
  case None
  then show ?thesis by (simp add: createLetterBodies_def)
next
  case (Some world)
  show ?thesis by (rule createLetterBodies_rebuilt(4) [OF Some])
qed

lemma touched_createLetterBodies_ext [simp]:
  "hasBeenTouched (createLetterBodies_ext cw s) = hasBeenTouched s"
proof (cases "engineWorld s")
  case None
  then show ?thesis by (simp add: createLetterBodies_ext_def)
next
  case (Some world)
  show ?thesis by (rule createLetterBodies_ext_rebuilt(4) [OF Some])
qed

lemma touched_mountScene [simp]: "hasBeenTouched (mountScene d s) = hasBeenTouched s"
  by (simp add: mountScene_def Let_def World_add_def Bodies_circle_def split: option.splits prod.splits)

lemma touched_mountScene_ext [simp]: "hasBeenTouched (mountScene_ext d s) = hasBeenTouched s"
  by (simp add: mountScene_ext_def Let_def World_add_def Bodies_circle_def split: option.splits prod.splits)

lemma touched_handleResize [simp]: "hasBeenTouched (handleResize d s) = hasBeenTouched s"
  by (simp add: handleResize_def Let_def split: option.splits prod.splits)

lemma touched_handleResize_ext [simp]: "hasBeenTouched (handleResize_ext d s) = hasBeenTouched s"
  by (simp add: handleResize_ext_def Let_def split: option.splits prod.splits)

lemma touched_engineUpdate [simp]: "hasBeenTouched (engineUpdate f s) = hasBeenTouched s"
  by (simp add: engineUpdate_def)

lemma touched_handlePointer [simp]: "hasBeenTouched (handlePointer p s) = hasBeenTouched s"
  by (simp add: handlePointer_def split: option.splits)

lemma touched_resetText [simp]: "\<not> hasBeenTouched (resetText s)"
  by (simp add: resetText_def)

lemma touched_step_keeps:
  "hasBeenTouched s \<Longrightarrow> e \<noteq> ResetClick \<Longrightarrow> hasBeenTouched (step v e s)"
  by (cases v; cases e) (simp_all add: touched_checkForMovement)

lemma touched_step_sets:
  "\<not> hasBeenTouched s \<Longrightarrow> hasBeenTouched (step v e s) \<Longrightarrow> e = AfterRender"
  by (cases v; cases e) simp_all

lemma touched_run:
  "hasBeenTouched s \<Longrightarrow> ResetClick \<notin> set es \<Longrightarrow> hasBeenTouched (run v es s)"
proof (induction es arbitrary: s)
  case Nil
  then show ?case by (simp add: run_def)
next
  case (Cons e es)
  from Cons.prems have "hasBeenTouched (step v e s)"
    by (auto intro: touched_step_keeps)
  from Cons.IH [OF this] Cons.prems(2) show ?case
    by (simp add: run_def)
qed

text \<open>
  Claim C7. The touched flag goes one way until reset: it is false in the refs a page
  view starts with and after the scene is first mounted from them; no event other than a
  click on reset takes a touched scene to an untouched one, so the check of a later frame
  keeps the flag even when every body is back under the thresholds, and so does any run
  of events without a reset; the only event that takes an untouched scene to a touched
  one is the check after a render; and a click on reset always leaves the flag false.
\<close>

theorem touched_one_way:
  "\<not> hasBeenTouched (initialRefs firstId)
   \<and> \<not> hasBeenTouched (step v (Mount d) (initialRefs firstId))
   \<and> (hasBeenTouched s \<and> e \<noteq> ResetClick \<longrightarrow> hasBeenTouched (step v e s))
   \<and> (hasBeenTouched s \<and> ResetClick \<notin> set es \<longrightarrow> hasBeenTouched (run v es s))
   \<and> (\<not> hasBeenTouched s \<and> hasBeenTouched (step v e s) \<longrightarrow> e = AfterRender)
   \<and> \<not> hasBeenTouched (step v ResetClick s)"
proof -
  have init: "\<not> hasBeenTouched (initialRefs firstId)"
    by (simp add: initialRefs_def)
  then have "\<not> hasBeenTouched (step v (Mount d) (initialRefs firstId))"
    by (cases v) simp_all
  with init show ?thesis
    using touched_run [of s es v] touched_step_keeps [of s e v] touched_step_sets [of s v e]
    by auto
qed

theorem touched_one_way_witness:
  "hasBeenTouched ((exampleScene True)\<lparr>textBodies := [exampleGlyph (100, 50) 0]\<rparr>)
   \<and> \<not> hasMovedLoop [exampleGlyph (100, 50) 0]
   \<and> hasBeenTouched (step FullViewport AfterRender
         ((exampleScene True)\<lparr>textBodies := [exampleGlyph (100, 50) 0]\<rparr>))
   \<and> hasBeenTouched (run FullViewport [AfterRender, PointerMove (1, 1), AfterRender]
         ((exampleScene True)\<lparr>textBodies := [exampleGlyph (100, 50) 0]\<rparr>))
   \<and> \<not> hasBeenTouched (exampleScene False)
   \<and> hasBeenTouched (step FullViewport AfterRender (exampleScene False))
   \<and> \<not> hasBeenTouched (step FullViewport ResetClick (exampleScene True))"
  using touched_one_way [of 0 FullViewport exampleDom
      "(exampleScene True)\<lparr>textBodies := [exampleGlyph (100, 50) 0]\<rparr>" AfterRender
      "[AfterRender, PointerMove (1, 1), AfterRender]"]
    touched_one_way [of 0 FullViewport exampleDom "exampleScene False" AfterRender "[]"]
  by (simp add: exampleScene_def exampleGlyph_def checkForMovement_def MOVEMENT_THRESHOLD_def
      resetText_def)

section \<open>Properties of the subscription handler\<close>

lemma rxTest_Plus:
  "rxTest (Plus p # r) s \<longleftrightarrow> (\<exists>a b. s = a @ b \<and> a \<noteq> [] \<and> list_all p a \<and> rxTest r b)"
proof (induction s)
  case Nil
  show ?case by simp
next
  case (Cons x xs)
  show ?case
  proof
    assume "rxTest (Plus p # r) (x # xs)"
    then have px: "p x" and alt: "rxTest (Plus p # r) xs \<or> rxTest r xs" by simp_all
    from alt show "\<exists>a b. x # xs = a @ b \<and> a \<noteq> [] \<and> list_all p a \<and> rxTest r b"
    proof
      assume "rxTest (Plus p # r) xs"
      with Cons obtain a b where "xs = a @ b" "a \<noteq> []" "list_all p a" "rxTest r b" by blast
      with px have "x # xs = (x # a) @ b \<and> x # a \<noteq> [] \<and> list_all p (x # a) \<and> rxTest r b"
        by simp
      then show ?thesis by blast
    next
      assume "rxTest r xs"
      with px have "x # xs = [x] @ xs \<and> [x] \<noteq> [] \<and> list_all p [x] \<and> rxTest r xs" by simp
      then show ?thesis by blast
    qed
  next
    assume "\<exists>a b. x # xs = a @ b \<and> a \<noteq> [] \<and> list_all p a \<and> rxTest r b"
    then obtain a b where ab: "x # xs = a @ b" "a \<noteq> []" "list_all p a" "rxTest r b" by blast
    then obtain a' where a: "a = x # a'" by (cases a) auto
    with ab have px: "p x" and xs: "xs = a' @ b" and pa: "list_all p a'" by simp_all
    show "rxTest (Plus p # r) (x # xs)"
    proof (cases a')
      case Nil
      with xs ab(4) px show ?thesis by simp
    next
      case (Cons y ys)
      with xs pa ab(4) have "rxTest (Plus p # r) xs"
        using Cons.IH by blast
      with px show ?thesis by simp
    qed
  qed
qed

lemma rxTest_Lit: "rxTest (Lit c # r) s \<longleftrightarrow> (\<exists>b. s = c # b \<and> rxTest r b)"
  by (cases s) auto

lemma emailRegex_pattern: "rxTest emailRegex e \<longleftrightarrow> emailPattern e"
  unfolding emailRegex_def emailPattern_def rxTest_Plus rxTest_Lit
  by (simp add: rxTest_Plus) blast


lemma POST_rejects:
  assumes "request_json req = Some parsed" and "parsed \<noteq> JSNull" and "parsed \<noteq> JSUndefined"
    and "\<not> validEmail (requestEmail req)"
  shows "status (fst (POST contactsCreate req)) = 400 \<and> snd (POST contactsCreate req) = []"
proof (cases parsed)
  case (JSObject kvs)
  show ?thesis
  proof (cases "map_of (rev kvs) (ascii ''email'')")
    case None
    with JSObject assms(1) show ?thesis by (simp add: POST_def)
  next
    case (Some email)
    with JSObject assms(1,4) show ?thesis
      by (cases email)
        (simp_all add: POST_def requestEmail_def validEmail_def emailRegex_pattern)
  qed
qed (use assms in \<open>simp_all add: POST_def\<close>)

lemma POST_no_body:
  assumes "request_json req = None \<or> request_json req = Some JSNull"
  shows "status (fst (POST contactsCreate req)) = 500 \<and> snd (POST contactsCreate req) = []"
  using assms by (auto simp: POST_def somethingWentWrong_def)

lemma POST_creates:
  assumes "snd (POST contactsCreate req) \<noteq> []"
  shows "\<exists>address. requestEmail req = Some (JSString address) \<and> emailPattern address
           \<and> snd (POST contactsCreate req) = [address]"
proof (cases "request_json req")
  case None
  with assms show ?thesis by (simp add: POST_def)
next
  case (Some parsed)
  show ?thesis
  proof (cases parsed)
    case (JSObject kvs)
    show ?thesis
    proof (cases "map_of (rev kvs) (ascii ''email'')")
      case None
      with JSObject Some assms show ?thesis by (simp add: POST_def)
    next
      case email: (Some email)
      show ?thesis
      proof (cases email)
        case (JSString address)
        with email JSObject Some assms show ?thesis
          by (auto simp: POST_def requestEmail_def emailRegex_pattern
              split: if_splits createResult.splits)
      qed (use email JSObject Some assms in \<open>simp_all add: POST_def split: if_splits\<close>)
    qed
  qed (use Some assms in \<open>simp_all add: POST_def\<close>)
qed

lemma email_units:
  "ascii ''email'' = [101, 109, 97, 105, 108]" "ascii ''a@b'' = [97, 64, 98]"
  "ascii ''a@b.c'' = [97, 64, 98, 46, 99]"
  by (simp_all add: ascii_def)

lemma isWhiteSpace_units: "notSpaceAt 97" "notSpaceAt 98" "notSpaceAt 99" "notSpaceAt 46"
  by (simp_all add: notSpaceAt_def isWhiteSpace_def)

text \<open>
  Claim C10, as the handler has it. When the body of the request parses as JSON to a
  value other than \<open>null\<close> and its email is missing, is no string or fails the pattern
  (one or more characters that are neither white space nor \<open>@\<close>, then \<open>@\<close>, then such
  characters, then a dot, then such characters), the handler answers 400 and does not
  call the contact store; so \<open>a@b\<close>, with no dot after the \<open>@\<close>, is rejected. When the body
  is not JSON or is \<open>null\<close>, the handler answers 500 and does not call the contact store
  either. The contact store is called only with an email that matches the pattern, and
  then once.
\<close>

theorem subscribe_validation:
  "(request_json req = Some parsed \<and> parsed \<noteq> JSNull \<and> parsed \<noteq> JSUndefined
      \<and> \<not> validEmail (requestEmail req)
     \<longrightarrow> status (fst (POST contactsCreate req)) = 400 \<and> snd (POST contactsCreate req) = [])
   \<and> (request_json req = None \<or> request_json req = Some JSNull
     \<longrightarrow> status (fst (POST contactsCreate req)) = 500 \<and> snd (POST contactsCreate req) = [])
   \<and> (snd (POST contactsCreate req) \<noteq> []
     \<longrightarrow> (\<exists>address. requestEmail req = Some (JSString address) \<and> emailPattern address
           \<and> snd (POST contactsCreate req) = [address]))"
  using POST_rejects [of req parsed contactsCreate] POST_no_body [of req contactsCreate]
    POST_creates [of contactsCreate req]
  by blast

theorem subscribe_validation_witness:
  "\<not> rxTest emailRegex (ascii ''a@b'')
   \<and> status (fst (POST acceptAll (emailRequest ''a@b''))) = 400
   \<and> snd (POST acceptAll (emailRequest ''a@b'')) = []
   \<and> status (fst (POST acceptAll noJsonRequest)) = 500
   \<and> snd (POST acceptAll noJsonRequest) = []
   \<and> rxTest emailRegex (ascii ''a@b.c'')
   \<and> snd (POST acceptAll (emailRequest ''a@b.c'')) = [ascii ''a@b.c'']
   \<and> status (fst (POST acceptAll (emailRequest ''a@b.c''))) = 200"
  using subscribe_validation [of "emailRequest ''a@b''"
      "JSObject [(ascii ''email'', JSString (ascii ''a@b''))]" acceptAll]
    subscribe_validation [of noJsonRequest JSNull acceptAll]
    subscribe_validation [of "emailRequest ''a@b.c''" JSNull acceptAll]
  by (simp add: emailRequest_def noJsonRequest_def requestEmail_def validEmail_def
      emailRegex_pattern [symmetric] emailRegex_def email_units isWhiteSpace_units
      POST_def acceptAll_def somethingWentWrong_def)

text \<open>
  A request whose body is not JSON carries no email, and the handler answers it with 500,
  not 400: reading the body throws, and the \<open>catch\<close> of the handler answers.
\<close>

theorem subscribe_missing_email_counterexample:
  "requestEmail noJsonRequest = None
   \<and> \<not> validEmail (requestEmail noJsonRequest)
   \<and> status (fst (POST acceptAll noJsonRequest)) = 500
   \<and> status (fst (POST acceptAll noJsonRequest)) \<noteq> 400"
  by (simp add: requestEmail_def noJsonRequest_def validEmail_def POST_def somethingWentWrong_def)

section \<open>Determinism of the layout\<close>

lemma config_depends:
  assumes "isMobile w = isMobile w'" and "isTablet w = isTablet w'"
    and "maxCharsPerLine w = maxCharsPerLine w'"
  shows "getResponsiveConfigOf str w = getResponsiveConfigOf str w'"
  using assms by (simp add: getResponsiveConfigOf_def descFontSizeOf_def)

lemma factory_layout:
  assumes "engineWorld s = Some world"
  shows "map glyphOf (textBodies (createLetterBodies cw ox oy s))
           = concat (map (lineGlyphs ox) (layoutLines ''PRODUCT ENGINEER'' (getResponsiveConfig cw) oy))"
  using createLetterBodies_rebuilt(1) [OF assms, where ox = ox and cw = cw and oy = oy]
  by (simp add: glyphsRebuilt_def)

text \<open>
  Claim C8. The layout planner is a function of the container width alone: it reads its
  argument and the constant description text, and writes its own locals only, which is
  why it is a function of the width here. Two calls at the same width give the same font
  sizes, line heights and wrapped lines, in both variants; and the glyphs the factory
  lays out from the planner at that width are the same whatever the scenes it runs in.
  (\<open>config_depends\<close>: the width matters only through its size class and the line bound.)
\<close>

theorem layout_deterministic:
  assumes "containerWidth = containerWidth'"
  shows "titleFontSize (getResponsiveConfig containerWidth) = titleFontSize (getResponsiveConfig containerWidth')
       \<and> descFontSize (getResponsiveConfig containerWidth) = descFontSize (getResponsiveConfig containerWidth')
       \<and> lineHeight (getResponsiveConfig containerWidth) = lineHeight (getResponsiveConfig containerWidth')
       \<and> descLineHeight (getResponsiveConfig containerWidth) = descLineHeight (getResponsiveConfig containerWidth')
       \<and> descriptionLines (getResponsiveConfig containerWidth) = descriptionLines (getResponsiveConfig containerWidth')
       \<and> getResponsiveConfig_ext containerWidth = getResponsiveConfig_ext containerWidth'
       \<and> (engineWorld s = Some world \<and> engineWorld s' = Some world'
            \<longrightarrow> map glyphOf (textBodies (createLetterBodies containerWidth offsetX offsetY s))
                = map glyphOf (textBodies (createLetterBodies containerWidth' offsetX offsetY s')))"
proof -
  have c: "getResponsiveConfigOf str containerWidth = getResponsiveConfigOf str containerWidth'" for str
    using assms by (intro config_depends) simp_all
  then have "getResponsiveConfig containerWidth = getResponsiveConfig containerWidth'"
    and "getResponsiveConfig_ext containerWidth = getResponsiveConfig_ext containerWidth'"
    by (simp_all add: getResponsiveConfig_def getResponsiveConfig_ext_def)
  then show ?thesis
    by (simp add: factory_layout)
qed

theorem layout_deterministic_witness:
  "engineWorld (exampleScene True) = Some [0, 3] \<and> engineWorld (exampleScene False) = Some [0, 3]
   \<and> exampleScene True \<noteq> exampleScene False
   \<and> descriptionLines (getResponsiveConfig 100) = descriptionLines (getResponsiveConfig (50 + 50))
   \<and> map glyphOf (textBodies (createLetterBodies 100 10 20 (exampleScene True)))
       = map glyphOf (textBodies (createLetterBodies (50 + 50) 10 20 (exampleScene False)))"
  using layout_deterministic [of 100 "50 + 50" "exampleScene True" "[0, 3]" "exampleScene False" "[0, 3]" 10 20]
  by (simp add: exampleScene_def)

section \<open>The scenes of a page view are in order\<close>

lemma sceneOk_initialRefs: "sceneOk (initialRefs firstId)"
  by (simp add: sceneOk_def initialRefs_def)

lemma sceneOk_createWalls_ext: "sceneOk s \<Longrightarrow> sceneOk (createWalls_ext width height s)"
proof (cases "engineWorld s")
  case None
  then show "sceneOk s \<Longrightarrow> ?thesis" by (simp add: createWalls_ext_def)
next
  case (Some world)
  then show "sceneOk s \<Longrightarrow> ?thesis" by (rule createWalls_ext_rebuilt(2))
qed

lemma sceneOk_pointer_proxy:
  assumes "sceneOk s"
  shows "sceneOk (case Bodies_circle px py r opts s of
                    (mouse, s3) \<Rightarrow> World_add mouse (s3\<lparr>mouseBody := Some mouse\<rparr>))"
  using assms
  by (cases "engineWorld s")
    (auto simp: sceneOk_def Bodies_circle_def World_add_def list_all_iff intro: less_SucI)

lemma sceneOk_built:
  assumes e: "engineWorld s = Some world" and ok: "sceneOk s"
  shows "sceneOk (createLetterBodies cw ox oy (createWalls width s))"
    and "sceneOk (createLetterBodies_ext cw (createWalls_ext width height s))"
proof -
  from createWalls_ext_world [OF e ok, of width 2000]
  obtain world1 where w1: "engineWorld (createWalls_ext width 2000 s) = Some world1" by blast
  note lb = createLetterBodies_rebuilt [OF w1, where ox = ox and cw = cw and oy = oy]
  from resized_after_letters(3) [OF e ok refl lb(1) lb(2) lb(6)]
  show "sceneOk (createLetterBodies cw ox oy (createWalls width s))"
    by (simp add: createWalls_eq [OF e])
  from createWalls_ext_world [OF e ok, of width height]
  obtain world2 where w2: "engineWorld (createWalls_ext width height s) = Some world2" by blast
  note lc = createLetterBodies_ext_rebuilt [OF w2, where cw = cw]
  from resized_after_letters(3) [OF e ok refl lc(1) lc(2) lc(6)]
  show "sceneOk (createLetterBodies_ext cw (createWalls_ext width height s))" .
qed

lemma sceneOk_new_engine: "sceneOk s \<Longrightarrow> sceneOk (s\<lparr>engineWorld := Some []\<rparr>)"
  by (simp add: sceneOk_def)

lemma sceneOk_mountScene: "sceneOk s \<Longrightarrow> sceneOk (mountScene d s)"
  unfolding mountScene_def Let_def
  by (auto split: option.splits prod.splits
      intro!: sceneOk_pointer_proxy [unfolded split_def] sceneOk_built(1) sceneOk_new_engine
      simp: split_def)


lemma sceneOk_mountScene_ext: "sceneOk s \<Longrightarrow> sceneOk (mountScene_ext d s)"
  unfolding mountScene_ext_def Let_def
  by (auto split: option.splits prod.splits
      intro!: sceneOk_pointer_proxy [unfolded split_def] sceneOk_built(2) sceneOk_new_engine
      simp: split_def)

lemma sceneOk_handleResize: "sceneOk s \<Longrightarrow> sceneOk (handleResize d s)"
proof (cases "heroRect d")
  case None
  then show "sceneOk s \<Longrightarrow> ?thesis" by (simp add: handleResize_def)
next
  case (Some rect)
  obtain hw hh hl ht where rect: "rect = (hw, hh, hl, ht)" by (cases rect)
  assume ok: "sceneOk s"
  show ?thesis
  proof (cases "engineWorld s")
    case None
    with ok Some rect show ?thesis
      by (simp add: handleResize_def createWalls_def createLetterBodies_def)
  next
    case e: (Some world)
    from Some rect have "heroRect d = Some (hw, hh, hl, ht)" by simp
    from handleResize_resized(2) [OF this e ok] show ?thesis .
  qed
qed

lemma sceneOk_handleResize_ext: "sceneOk s \<Longrightarrow> sceneOk (handleResize_ext d s)"
proof (cases "heroRect d")
  case None
  then show "sceneOk s \<Longrightarrow> ?thesis" by (simp add: handleResize_ext_def)
next
  case (Some rect)
  obtain hw hh hl ht where rect: "rect = (hw, hh, hl, ht)" by (cases rect)
  assume ok: "sceneOk s"
  show ?thesis
  proof (cases "engineWorld s")
    case None
    with ok Some rect show ?thesis
      by (simp add: handleResize_ext_def createWalls_ext_def createLetterBodies_ext_def)
  next
    case e: (Some world)
    from Some rect have "heroRect d = Some (hw, hh, hl, ht)" by simp
    from handleResize_ext_resized(2) [OF this e ok] show ?thesis .
  qed
qed

lemma sceneOk_step: "sceneOk s \<Longrightarrow> sceneOk (step v e s)"
proof (cases e)
  case (Mount d)
  then show "sceneOk s \<Longrightarrow> ?thesis"
    by (cases v) (simp_all add: sceneOk_mountScene sceneOk_mountScene_ext)
next
  case (EngineUpdate f)
  then show "sceneOk s \<Longrightarrow> ?thesis"
    by (auto simp: sceneOk_def engineUpdate_def list_all_iff split_beta split: option.splits)
next
  case AfterRender
  then show "sceneOk s \<Longrightarrow> ?thesis"
    by (simp add: sceneOk_def checkForMovement_def Let_def split: option.splits)
next
  case (PointerMove p)
  then show "sceneOk s \<Longrightarrow> ?thesis"
    by (simp add: sceneOk_def handlePointer_def split: option.splits)
next
  case (Resize d)
  then show "sceneOk s \<Longrightarrow> ?thesis"
    by (cases v) (simp_all add: sceneOk_handleResize sceneOk_handleResize_ext)
next
  case ResetClick
  then show "sceneOk s \<Longrightarrow> ?thesis"
    by (auto simp: sceneOk_def resetText_def resetBody_def list_all_iff Body_setPosition_def
        Body_setAngle_def Body_setVelocity_def Body_setAngularVelocity_def split: option.splits)
qed

lemma sceneOk_run: "sceneOk s \<Longrightarrow> sceneOk (run v es s)"
proof (induction es arbitrary: s)
  case Nil
  then show ?case by (simp add: run_def)
next
  case (Cons e es)
  from Cons.IH [OF sceneOk_step [OF Cons.prems, of v e]] show ?case
    by (simp add: run_def)
qed

text \<open>
  Every scene of a page view, from the refs it starts with through any events, is in
  order: the condition of the resize property holds wherever a resize can happen.
\<close>

lemma sceneOk_reachable: "sceneOk (run v es (initialRefs firstId))"
  by (rule sceneOk_run [OF sceneOk_initialRefs])

end
